theory Spec2Isabelle
  imports Complex_Main
begin

section \<open>JavaScript values as the server handles them\<close>

text \<open>
  \<^verbatim>\<open>src/server.js\<close> holds two revisions of the server, one after the other. The
  handlers modelled here are those of the later revision (from \<^verbatim>\<open>const PORT =
  process.env.PORT || 3000\<close> on), the one with \<^verbatim>\<open>/agro/save\<close>, the merging
  \<^verbatim>\<open>/agro/bulk_set\<close> and \<^verbatim>\<open>filterFarmRows\<close>.

  The server keeps every collection as a JSON array of objects in a file and reloads it on
  each request. A field value is a JSON value; \<open>Undefined\<close> is what reading an absent
  field gives. Arrays and objects nested inside a field are carried as \<open>JOther\<close> with
  their JSON text: the handlers never look inside them.

  A number of the program is an IEEE double: \<open>NaN\<close>, an infinity, or a finite double
  \<open>Fin q\<close> with value \<open>q\<close>; the theorems hold for every rational \<open>q\<close>, the
  doubles among them. As a value, \<open>JNum q\<close> is the finite number \<open>q\<close>, and
  \<open>JNaN\<close>, \<open>JPosInf\<close> and \<open>JNegInf\<close> are the three numbers that JSON has no
  text for: no value read from a file or a request is one of them, a handler can only
  compute them, and \<open>JSON.stringify\<close> writes each of them as \<open>null\<close>
  (\<open>written\<close>). Comparison and \<open>Math.max\<close> of doubles are exact. Addition is not: \<open>n + 1\<close> is
  the double nearest to the exact sum, which is the exact sum when \<open>n\<close> is an
  integer from \<open>-2\<^sup>5\<^sup>3\<close> up to \<open>2\<^sup>5\<^sup>3 - 1\<close>, and is \<open>n\<close> itself at
  \<open>2\<^sup>5\<^sup>3\<close>. Outside the range where the sum is exact the result is left to the
  runtime (\<open>nearest\<close>).

  A character is a code unit below 256; text with other characters is outside the model.
\<close>

datatype number = NaN | Fin rat | PosInf | NegInf

datatype jsval =
  Undefined | Null | JBool bool | JNum rat | JNaN | JPosInf | JNegInf | JStr string | JOther string

text \<open>An object is read field by field; an absent field reads as \<open>Undefined\<close>. The
  order of the keys, which only shows in the text of the file, is not modelled.\<close>

type_synonym row = "string \<Rightarrow> jsval"

text \<open>
  Conversions that belong to the JavaScript runtime and not to the server are parameters
  of the model: \<open>String(n)\<close> for a number, \<open>Number(s)\<close> for a string, \<open>String(v)\<close>
  for an array or object, \<open>new Date(v).getTime()\<close>, the clock
  \<open>new Date().toISOString()\<close>, and \<open>nearest\<close>, the double nearest to an exact
  value (an infinity beyond the range of the doubles).
\<close>

record runtime =
  numToStr :: "rat \<Rightarrow> string"
  strToNum :: "string \<Rightarrow> number"
  otherToStr :: "string \<Rightarrow> string"
  dateTime :: "jsval \<Rightarrow> number"
  nowISO :: "string"
  nearest :: "rat \<Rightarrow> number"

definition emptyObj :: row where
  "emptyObj = (\<lambda>k. Undefined)"

text \<open>\<open>{...a, ...b}\<close>: the fields of \<open>b\<close> win. Parsed JSON has no field holding
  \<open>undefined\<close>, so a field is present exactly when it does not read as \<open>Undefined\<close>.\<close>

definition spread :: "row \<Rightarrow> row \<Rightarrow> row" where
  "spread a b = (\<lambda>k. if b k = Undefined then a k else b k)"

fun truthy :: "jsval \<Rightarrow> bool" where
  "truthy Undefined = False"
| "truthy Null = False"
| "truthy (JBool b) = b"
| "truthy (JNum q) = (q \<noteq> 0)"
| "truthy JNaN = False"
| "truthy JPosInf = True"
| "truthy JNegInf = True"
| "truthy (JStr s) = (s \<noteq> [])"
| "truthy (JOther t) = True"

text \<open>\<open>a || b\<close> and \<open>a ?? b\<close>.\<close>

definition js_or :: "jsval \<Rightarrow> jsval \<Rightarrow> jsval" where
  "js_or a b = (if truthy a then a else b)"

definition nullish :: "jsval \<Rightarrow> bool" where
  "nullish v = (v = Undefined \<or> v = Null)"

definition js_nullish_or :: "jsval \<Rightarrow> jsval \<Rightarrow> jsval" where
  "js_nullish_or a b = (if nullish a then b else a)"

text \<open>\<open>a === b\<close>. Two arrays or objects that come from parsing JSON are different
  references, so they are never strictly equal; \<open>NaN\<close> is strictly equal to nothing,
  itself included.\<close>

fun strict_eq :: "jsval \<Rightarrow> jsval \<Rightarrow> bool" where
  "strict_eq (JOther s) v = False"
| "strict_eq v (JOther t) = False"
| "strict_eq JNaN v = False"
| "strict_eq v JNaN = False"
| "strict_eq a b = (a = b)"

text \<open>\<open>v === n\<close> where \<open>n\<close> is a computed number.\<close>

fun strict_eq_num :: "jsval \<Rightarrow> number \<Rightarrow> bool" where
  "strict_eq_num (JNum q) (Fin p) = (q = p)"
| "strict_eq_num JPosInf PosInf = True"
| "strict_eq_num JNegInf NegInf = True"
| "strict_eq_num v n = False"

fun toNumber :: "runtime \<Rightarrow> jsval \<Rightarrow> number" where
  "toNumber rt Undefined = NaN"
| "toNumber rt Null = Fin 0"
| "toNumber rt (JBool b) = Fin (if b then 1 else 0)"
| "toNumber rt (JNum q) = Fin q"
| "toNumber rt JNaN = NaN"
| "toNumber rt JPosInf = PosInf"
| "toNumber rt JNegInf = NegInf"
| "toNumber rt (JStr s) = strToNum rt s"
| "toNumber rt (JOther t) = strToNum rt (otherToStr rt t)"

fun toString :: "runtime \<Rightarrow> jsval \<Rightarrow> string" where
  "toString rt Undefined = ''undefined''"
| "toString rt Null = ''null''"
| "toString rt (JBool b) = (if b then ''true'' else ''false'')"
| "toString rt (JNum q) = numToStr rt q"
| "toString rt JNaN = ''NaN''"
| "toString rt JPosInf = ''Infinity''"
| "toString rt JNegInf = ''-Infinity''"
| "toString rt (JStr s) = s"
| "toString rt (JOther t) = otherToStr rt t"

text \<open>A computed number as a value, and what \<open>JSON.stringify\<close> followed by
  \<open>JSON.parse\<close> makes of a value: the file and the reply hold \<open>written v\<close> where
  the handler put \<open>v\<close>.\<close>

fun of_number :: "number \<Rightarrow> jsval" where
  "of_number NaN = JNaN"
| "of_number (Fin q) = JNum q"
| "of_number PosInf = JPosInf"
| "of_number NegInf = JNegInf"

fun written :: "jsval \<Rightarrow> jsval" where
  "written JNaN = Null"
| "written JPosInf = Null"
| "written JNegInf = Null"
| "written v = v"

fun isFin :: "number \<Rightarrow> bool" where
  "isFin (Fin q) = True"
| "isFin n = False"

text \<open>\<open>Math.max(a, b)\<close>, \<open>a < b\<close> and \<open>a > b\<close> on numbers.\<close>

fun num_max :: "number \<Rightarrow> number \<Rightarrow> number" where
  "num_max NaN b = NaN"
| "num_max a NaN = NaN"
| "num_max PosInf b = PosInf"
| "num_max a PosInf = PosInf"
| "num_max NegInf b = b"
| "num_max a NegInf = a"
| "num_max (Fin a) (Fin b) = Fin (max a b)"

fun num_lt :: "number \<Rightarrow> number \<Rightarrow> bool" where
  "num_lt (Fin a) (Fin b) = (a < b)"
| "num_lt NegInf (Fin b) = True"
| "num_lt NegInf PosInf = True"
| "num_lt (Fin a) PosInf = True"
| "num_lt a b = False"

definition num_gt :: "number \<Rightarrow> number \<Rightarrow> bool" where
  "num_gt a b = num_lt b a"

text \<open>
  \<open>n + 1\<close> and \<open>++n\<close>. The sum of two doubles is the double nearest to the exact
  sum. For an integer \<open>a\<close> with \<open>-2\<^sup>5\<^sup>3 \<le> a < 2\<^sup>5\<^sup>3\<close> both \<open>a\<close> and
  \<open>a + 1\<close> are doubles, so the sum is exact; elsewhere it is what the runtime rounds
  the exact sum to.
\<close>

definition safeInt :: "rat \<Rightarrow> bool" where
  "safeInt a = (of_int \<lfloor>a\<rfloor> = a \<and> - 9007199254740992 \<le> a \<and> a < 9007199254740992)"

fun num_inc :: "runtime \<Rightarrow> number \<Rightarrow> number" where
  "num_inc rt (Fin a) = (if safeInt a then Fin (a + 1) else nearest rt (a + 1))"
| "num_inc rt NaN = NaN"
| "num_inc rt PosInf = PosInf"
| "num_inc rt NegInf = NegInf"

text \<open>
  \<open>a - b\<close>, of which the sort reads only the sign. For two finite doubles this is the
  exact difference: the double difference is the double nearest to it and has its sign.
\<close>

fun num_sub :: "number \<Rightarrow> number \<Rightarrow> number" where
  "num_sub (Fin a) (Fin b) = Fin (a - b)"
| "num_sub PosInf (Fin b) = PosInf"
| "num_sub PosInf NegInf = PosInf"
| "num_sub NegInf (Fin b) = NegInf"
| "num_sub NegInf PosInf = NegInf"
| "num_sub (Fin a) PosInf = NegInf"
| "num_sub (Fin a) NegInf = PosInf"
| "num_sub a b = NaN"

text \<open>\<open>n || 0\<close> for a computed number: only \<open>NaN\<close> and 0 are falsy.\<close>

fun orZero :: "number \<Rightarrow> number" where
  "orZero NaN = Fin 0"
| "orZero n = n"

text \<open>The value of a finite number (0 for the others), to state results about it.\<close>

fun num_or0 :: "number \<Rightarrow> rat" where
  "num_or0 (Fin q) = q"
| "num_or0 n = 0"

text \<open>\<open>r.id || 0\<close> as \<open>Math.max\<close> and \<open>-\<close> read it.\<close>

definition idNum :: "runtime \<Rightarrow> row \<Rightarrow> number" where
  "idNum rt r = toNumber rt (js_or (r ''id'') (JNum 0))"

text \<open>\<^verbatim>\<open>rows.reduce((m, r) => Math.max(m, r.id || 0), 0)\<close>\<close>

definition maxIdSeeded :: "runtime \<Rightarrow> row list \<Rightarrow> number" where
  "maxIdSeeded rt rows = fold (\<lambda>r m. num_max m (idNum rt r)) rows (Fin 0)"

text \<open>\<open>xs.findIndex(p)\<close>, with \<open>None\<close> for \<open>-1\<close>. (\<open>xs.find(p)\<close> is
  \<open>find\<close> of the list library, \<open>xs.some(p)\<close> is \<open>list_ex\<close>.)\<close>

fun findIndex :: "('a \<Rightarrow> bool) \<Rightarrow> 'a list \<Rightarrow> nat option" where
  "findIndex p [] = None"
| "findIndex p (x # xs) =
     (if p x then Some 0 else map_option Suc (findIndex p xs))"

section \<open>The agronomy store\<close>

subsection \<open>POST /agro/add\<close>

text \<open>
  \<^verbatim>\<open>id: rows.length ? Math.max(...rows.map(r => r.id || 0)) + 1 : 1\<close>
\<close>

definition nextIdAdd :: "runtime \<Rightarrow> row list \<Rightarrow> number" where
  "nextIdAdd rt rows =
     (case rows of
        [] \<Rightarrow> Fin 1
      | r # rs \<Rightarrow> num_inc rt (fold (\<lambda>x m. num_max m x) (map (idNum rt) rs) (idNum rt r)))"

text \<open>
  \<^verbatim>\<open>const newRow = { id: ..., ...req.body, supervisorRemarks: "" };
  rows.push(newRow); writeJSON(AGRO_FILE, rows); res.json({ success: true, row: newRow });\<close>
  The result is the stored collection and the row sent back.
\<close>

definition agro_add :: "runtime \<Rightarrow> row list \<Rightarrow> row \<Rightarrow> row list \<times> row" where
  "agro_add rt rows body =
     (let newRow = (spread (emptyObj(''id'' := of_number (nextIdAdd rt rows))) body)
                     (''supervisorRemarks'' := JStr '''')
      in (rows @ [newRow], newRow))"

text \<open>A sequence of add calls: each call reads what the call before it wrote. The
  result is the stored collection at the end and the rows sent back, in order.\<close>

fun add_all :: "runtime \<Rightarrow> row list \<Rightarrow> row list \<Rightarrow> row list \<times> row list" where
  "add_all rt rows [] = (rows, [])"
| "add_all rt rows (b # bs) =
     (case agro_add rt rows b of
        (rows', newRow) \<Rightarrow>
          (case add_all rt rows' bs of (rows'', sent) \<Rightarrow> (rows'', newRow # sent)))"

text \<open>
  Every stored identifier reads as an integer (an absent one reads as 0) that is at least
  \<open>-2\<^sup>5\<^sup>3\<close> and leaves room for \<open>n\<close> more below \<open>2\<^sup>5\<^sup>3\<close>: the range
  in which the next \<open>n\<close> identifiers are computed exactly.
\<close>

definition idsWithRoom :: "runtime \<Rightarrow> row list \<Rightarrow> nat \<Rightarrow> bool" where
  "idsWithRoom rt rows n =
     (of_nat n \<le> (9007199254740992 :: rat) \<and>
      list_all
        (\<lambda>r. case idNum rt r of
               Fin a \<Rightarrow> of_int \<lfloor>a\<rfloor> = a \<and> - 9007199254740992 \<le> a \<and>
                        a + of_nat n \<le> 9007199254740992
             | _ \<Rightarrow> False)
        rows)"

text \<open>One plus the greatest stored identifier, and 1 for the empty collection.\<close>

definition maxIdPlusOne :: "runtime \<Rightarrow> row list \<Rightarrow> rat" where
  "maxIdPlusOne rt rows =
     (if rows = [] then 1 else Max (set (map (\<lambda>r. num_or0 (idNum rt r)) rows)) + 1)"

subsection \<open>Replies\<close>

text \<open>
  A handler that stops early sends an error and writes nothing. \<open>Rejected\<close> is a reply
  \<open>{success: false, message}\<close> with status 200, \<open>BadRequest\<close> has status 400 and
  \<open>NotFound\<close> status 404. Each handler returns its reply together with the collection
  as it is stored afterwards.
\<close>

datatype error = Rejected string | BadRequest string | NotFound string

subsection \<open>POST /agro/supervisor-remarks\<close>

text \<open>
  \<^verbatim>\<open>const { id, supervisorRemarks } = req.body || {};
  if (!id) return res.status(400).json({ success: false, message: "Missing id" });
  const rows = readJSON(AGRO_FILE);
  const idx = rows.findIndex((r) => r.id === Number(id));
  if (idx === -1) return res.status(404).json({ success: false, message: "Not found" });
  rows[idx].supervisorRemarks = supervisorRemarks || "";
  writeJSON(AGRO_FILE, rows);
  res.json({ success: true });\<close>
\<close>

definition matchesId :: "runtime \<Rightarrow> jsval \<Rightarrow> row \<Rightarrow> bool" where
  "matchesId rt ident r = strict_eq_num (r ''id'') (toNumber rt ident)"

definition supervisor_remarks :: "runtime \<Rightarrow> row list \<Rightarrow> row \<Rightarrow> (error + unit) \<times> row list" where
  "supervisor_remarks rt rows body =
     (let ident = body ''id''; supervisorRemarks = body ''supervisorRemarks'' in
      if \<not> truthy ident then (Inl (BadRequest ''Missing id''), rows)
      else
        (case findIndex (matchesId rt ident) rows of
           None \<Rightarrow> (Inl (NotFound ''Not found''), rows)
         | Some idx \<Rightarrow>
             (Inr (),
              rows[idx := (rows ! idx)
                     (''supervisorRemarks'' := js_or supervisorRemarks (JStr ''''))])))"

subsection \<open>Identifiers of incoming rows\<close>

text \<open>
  The batch handlers give an incoming row without a truthy \<open>id\<close> a computed one.
  The identifier a row is compared by is \<open>Given v\<close>, the row's own truthy \<open>id\<close>, or
  \<open>Assigned n\<close>, the number computed for it, which the row carries from then on.
\<close>

datatype ident = Given jsval | Assigned number

text \<open>\<^verbatim>\<open>r.id === row.id\<close>\<close>

fun sameIdent :: "row \<Rightarrow> ident \<Rightarrow> bool" where
  "sameIdent r (Given v) = strict_eq (r ''id'') v"
| "sameIdent r (Assigned n) = strict_eq_num (r ''id'') n"

fun identVal :: "ident \<Rightarrow> jsval" where
  "identVal (Given v) = v"
| "identVal (Assigned n) = of_number n"

text \<open>The row after \<^verbatim>\<open>row.id = ...\<close>.\<close>

fun withIdent :: "row \<Rightarrow> ident \<Rightarrow> row" where
  "withIdent row (Given v) = row"
| "withIdent row (Assigned n) = row(''id'' := of_number n)"

subsection \<open>POST /agro/save\<close>

text \<open>
  \<^verbatim>\<open>const existingRows = readJSON(AGRO_FILE);
  let added = 0; let duplicates = 0;
  newRows.forEach(row => {
    if (!row.id) {
      row.id = existingRows.length
        ? Math.max(...existingRows.map(r => r.id || 0)) + 1 : 1;
    }
    const exists = existingRows.some(r =>
      r.id === row.id ||
      (r.farm === row.farm && r.gh === row.gh && r.area === row.area &&
       r.crop === row.crop && r.time === row.time));
    if (exists) { duplicates++; } else { existingRows.push(row); added++; }
  });
  writeJSON(AGRO_FILE, existingRows);
  res.json({ success: true, added, duplicates, message: ... });\<close>
  The request body is an array of objects. The result is the stored collection with the
  two counters sent back.
\<close>

definition sameKey :: "row \<Rightarrow> row \<Rightarrow> bool" where
  "sameKey r row =
     (strict_eq (r ''farm'') (row ''farm'') \<and>
      strict_eq (r ''gh'') (row ''gh'') \<and>
      strict_eq (r ''area'') (row ''area'') \<and>
      strict_eq (r ''crop'') (row ''crop'') \<and>
      strict_eq (r ''time'') (row ''time''))"

definition saveIdent :: "runtime \<Rightarrow> row list \<Rightarrow> row \<Rightarrow> ident" where
  "saveIdent rt existingRows row =
     (if \<not> truthy (row ''id'') then Assigned (nextIdAdd rt existingRows) else Given (row ''id''))"

definition save_row :: "runtime \<Rightarrow> row \<Rightarrow> row list \<times> nat \<times> nat \<Rightarrow> row list \<times> nat \<times> nat" where
  "save_row rt row st =
     (case st of (existingRows, added, duplicates) \<Rightarrow>
        (let ident = saveIdent rt existingRows row;
             exists = list_ex (\<lambda>r. sameIdent r ident \<or> sameKey r row) existingRows
         in if exists then (existingRows, added, duplicates + 1)
            else (existingRows @ [withIdent row ident], added + 1, duplicates)))"

definition agro_save :: "runtime \<Rightarrow> row list \<Rightarrow> row list \<Rightarrow> row list \<times> nat \<times> nat" where
  "agro_save rt existingRows newRows = fold (save_row rt) newRows (existingRows, 0, 0)"

subsection \<open>POST /agro/bulk_set\<close>

text \<open>
  \<^verbatim>\<open>const existing = readJSON(AGRO_FILE);
  let maxId = existing.reduce((m, r) => Math.max(m, r.id || 0), 0);
  const merged = [...existing];
  newData.forEach((row) => {
    if (!row.id) row.id = ++maxId;
    const idx = merged.findIndex(r => r.id === row.id);
    if (idx !== -1) {
      merged[idx] = { ...merged[idx], ...row,
        supervisorRemarks: row.supervisorRemarks ?? merged[idx].supervisorRemarks ?? "" };
    } else {
      if (!row.supervisorRemarks) row.supervisorRemarks = "";
      merged.push(row);
    }
  });
  writeJSON(AGRO_FILE, merged);\<close>
  \<open>assignIdent\<close> is \<^verbatim>\<open>if (!row.id) row.id = ++maxId\<close> (and \<^verbatim>\<open>row.id || ++maxId\<close>
  of the import), \<open>nextCounter\<close> the counter after it.
\<close>

definition assignIdent :: "runtime \<Rightarrow> number \<Rightarrow> row \<Rightarrow> ident" where
  "assignIdent rt maxId row =
     (if \<not> truthy (row ''id'') then Assigned (num_inc rt maxId) else Given (row ''id''))"

definition nextCounter :: "runtime \<Rightarrow> number \<Rightarrow> row \<Rightarrow> number" where
  "nextCounter rt maxId row = (if \<not> truthy (row ''id'') then num_inc rt maxId else maxId)"

definition bulk_row :: "runtime \<Rightarrow> row \<Rightarrow> row list \<times> number \<Rightarrow> row list \<times> number" where
  "bulk_row rt row st =
     (case st of (merged, maxId) \<Rightarrow>
        (let ident = assignIdent rt maxId row;
             row' = withIdent row ident
         in (case findIndex (\<lambda>r. sameIdent r ident) merged of
               Some idx \<Rightarrow>
                 merged[idx := (spread (merged ! idx) row')
                    (''supervisorRemarks'' :=
                       js_nullish_or (row ''supervisorRemarks'')
                         (js_nullish_or ((merged ! idx) ''supervisorRemarks'') (JStr '''')))]
             | None \<Rightarrow>
                 merged @ [row'(''supervisorRemarks'' := js_or (row ''supervisorRemarks'') (JStr ''''))],
             nextCounter rt maxId row)))"

text \<open>The loop state after a batch: the merged collection and the counter.\<close>

definition bulk_run :: "runtime \<Rightarrow> row list \<Rightarrow> row list \<Rightarrow> row list \<times> number" where
  "bulk_run rt existing newData = fold (bulk_row rt) newData (existing, maxIdSeeded rt existing)"

definition bulk_set :: "runtime \<Rightarrow> row list \<Rightarrow> row list \<Rightarrow> row list" where
  "bulk_set rt existing newData = fst (bulk_run rt existing newData)"

subsection \<open>POST /agro/import\<close>

text \<open>
  The rows come from the spreadsheet library (one object per sheet row, a cell without
  value reading as the empty string); parsing the file is outside this model.
  \<^verbatim>\<open>const existingRows = readJSON(AGRO_FILE);
  let maxId = existingRows.reduce((m, r) => Math.max(m, r.id || 0), 0);
  const importedData = importedRaw.map((row) => {
    const existing = row.id ? existingRows.find((r) => r.id === row.id) : null;
    return {
      id: row.id || ++maxId,
      farm: row.farm || row.Farm || "",
      ...
      agronomistRemarks: row.agronomistRemarks || row["Agronomist Remarks"] || "",
      supervisorRemarks: existing ? existing.supervisorRemarks : (row.supervisorRemarks || "")
    };
  });
  const merged = [...existingRows];
  importedData.forEach((r) => {
    const idx = merged.findIndex((e) => e.id === r.id);
    if (idx >= 0) merged[idx] = r; else merged.push(r);
  });
  writeJSON(AGRO_FILE, merged);\<close>
  \<open>importFields\<close> is the table of the canonical fields with the column names each is
  read from, in the order they are tried.
\<close>

definition importFields :: "(string \<times> string list) list" where
  "importFields =
     [(''farm'', [''farm'', ''Farm'']),
      (''gh'', [''gh'', ''GH'']),
      (''area'', [''area'', ''AREA'']),
      (''crop'', [''crop'', ''CROP'']),
      (''variety'', [''variety'', ''VARIETY'']),
      (''mode'', [''mode'', ''MODE'']),
      (''method'', [''method'', ''METHOD'']),
      (''time'', [''time'', ''TIME'']),
      (''mon'', [''mon'', ''Mon'', ''Monday'']),
      (''tue'', [''tue'', ''Tue'', ''Tuesday'']),
      (''wed'', [''wed'', ''Wed'', ''Wednesday'']),
      (''thu'', [''thu'', ''Thu'', ''Thursday'']),
      (''fri'', [''fri'', ''Fri'', ''Friday'']),
      (''sat'', [''sat'', ''Sat'', ''Saturday'']),
      (''sun'', [''sun'', ''Sun'', ''Sunday'']),
      (''target'', [''target'', ''Target'']),
      (''justification'', [''justification'', ''Justification'']),
      (''morning'', [''morning'', ''Morning'']),
      (''evening'', [''evening'', ''Evening'']),
      (''preparedBy'', [''preparedBy'', ''Prepared By'']),
      (''agronomistRemarks'', [''agronomistRemarks'', ''Agronomist Remarks''])]"

text \<open>\<^verbatim>\<open>row.a || row.b || ""\<close>\<close>

definition firstTruthy :: "row \<Rightarrow> string list \<Rightarrow> jsval" where
  "firstTruthy row ks = foldr (\<lambda>k v. js_or (row k) v) ks (JStr '''')"

definition canonical :: "row \<Rightarrow> row" where
  "canonical row =
     (\<lambda>k. case map_of importFields k of
             Some aliases \<Rightarrow> firstTruthy row aliases
           | None \<Rightarrow> Undefined)"

definition importRow :: "runtime \<Rightarrow> row list \<Rightarrow> number \<Rightarrow> row \<Rightarrow> ident \<times> row" where
  "importRow rt existingRows maxId row =
     (let existing = (if truthy (row ''id'')
                      then find (\<lambda>r. strict_eq (r ''id'') (row ''id'')) existingRows
                      else None);
          ident = assignIdent rt maxId row
      in (ident,
          (canonical row)
            (''id'' := identVal ident,
             ''supervisorRemarks'' :=
                (case existing of
                   Some e \<Rightarrow> e ''supervisorRemarks''
                 | None \<Rightarrow> js_or (row ''supervisorRemarks'') (JStr '''')))))"

fun importRows :: "runtime \<Rightarrow> row list \<Rightarrow> number \<Rightarrow> row list \<Rightarrow> (ident \<times> row) list" where
  "importRows rt existingRows maxId [] = []"
| "importRows rt existingRows maxId (row # rows) =
     importRow rt existingRows maxId row #
       importRows rt existingRows (nextCounter rt maxId row) rows"

definition mergeRow :: "ident \<times> row \<Rightarrow> row list \<Rightarrow> row list" where
  "mergeRow ir merged =
     (case ir of (ident, r) \<Rightarrow>
        (case findIndex (\<lambda>e. sameIdent e ident) merged of
           Some idx \<Rightarrow> merged[idx := r]
         | None \<Rightarrow> merged @ [r]))"

definition agro_import :: "runtime \<Rightarrow> row list \<Rightarrow> row list \<Rightarrow> row list" where
  "agro_import rt existingRows importedRaw =
     fold mergeRow (importRows rt existingRows (maxIdSeeded rt existingRows) importedRaw)
       existingRows"

text \<open>The counter \<open>maxId\<close> after the rows of a batch have been given their identifiers.\<close>

definition counterAfter :: "runtime \<Rightarrow> number \<Rightarrow> row list \<Rightarrow> number" where
  "counterAfter rt maxId rows = fold (\<lambda>row m. nextCounter rt m row) rows maxId"

subsection \<open>Invariants of the batch loops\<close>

text \<open>
  \<open>unnumbered rows\<close> is the number of rows of a batch that get a computed identifier.
  The counter is safe for \<open>n\<close> of them when \<open>n\<close> is 0, or the counter is \<open>NaN\<close>
  (every computed identifier is then \<open>NaN\<close>, which equals nothing), or it is an
  integer from \<open>-2\<^sup>5\<^sup>3\<close> on with \<open>n\<close> added at most \<open>2\<^sup>5\<^sup>3\<close>: then the
  next \<open>n\<close> increments are exact. The counter is at least every stored finite
  identifier (or is not finite), so that an identifier assigned by an exact increment
  equals no stored one. Both loops keep the identifiers of the rows that were stored at
  the start, in place; while the counter is safe the import also keeps their
  \<open>supervisorRemarks\<close>. An imported row is good when it carries its identifier and,
  if a stored row has that identifier, the \<open>supervisorRemarks\<close> of the first such row.
\<close>

definition unnumbered :: "row list \<Rightarrow> nat" where
  "unnumbered rows = length (filter (\<lambda>row. \<not> truthy (row ''id'')) rows)"

definition counterSafe :: "number \<Rightarrow> nat \<Rightarrow> bool" where
  "counterSafe maxId n =
     (n = 0 \<or>
      (case maxId of
         NaN \<Rightarrow> True
       | Fin m \<Rightarrow> of_int \<lfloor>m\<rfloor> = m \<and> - 9007199254740992 \<le> m \<and>
                  m + of_nat n \<le> 9007199254740992
       | PosInf \<Rightarrow> False
       | NegInf \<Rightarrow> False))"

definition idsBelow :: "number \<Rightarrow> row list \<Rightarrow> bool" where
  "idsBelow maxId rows =
     (case maxId of
        Fin m \<Rightarrow> list_all (\<lambda>r. case r ''id'' of JNum q \<Rightarrow> q \<le> m | _ \<Rightarrow> True) rows
      | _ \<Rightarrow> True)"

definition keepsIds :: "row list \<Rightarrow> row list \<times> number \<Rightarrow> bool" where
  "keepsIds existing st =
     (case st of (merged, maxId) \<Rightarrow>
        length existing \<le> length merged \<and>
        (\<forall>i<length existing. (merged ! i) ''id'' = (existing ! i) ''id'') \<and>
        idsBelow maxId existing)"

definition keepsPlaces :: "row list \<Rightarrow> row list \<Rightarrow> bool" where
  "keepsPlaces existing merged =
     (length existing \<le> length merged \<and>
      (\<forall>i<length existing. (merged ! i) ''id'' = (existing ! i) ''id''))"

definition keepsStored :: "row list \<Rightarrow> row list \<Rightarrow> bool" where
  "keepsStored existing merged =
     (length existing \<le> length merged \<and>
      (\<forall>i<length existing.
         (merged ! i) ''id'' = (existing ! i) ''id'' \<and>
         (merged ! i) ''supervisorRemarks'' = (existing ! i) ''supervisorRemarks''))"

definition goodImport :: "row list \<Rightarrow> ident \<times> row \<Rightarrow> bool" where
  "goodImport existing ir =
     (case ir of (ident, r) \<Rightarrow>
        r ''id'' = identVal ident \<and>
        (\<forall>j. findIndex (\<lambda>e. sameIdent e ident) existing = Some j \<longrightarrow>
           r ''supervisorRemarks'' = (existing ! j) ''supervisorRemarks''))"

section \<open>Registration\<close>

definition ROLES :: "string list" where
  "ROLES = [''Viewer'', ''Supervisor'', ''Agronomist'', ''GeneralManager'']"

text \<open>
  \<^verbatim>\<open>const payrollRecord =
    payroll.find((p) => String(p.payrollNumber) === String(payrollNumber));\<close>
\<close>

definition payrollRecord :: "runtime \<Rightarrow> row list \<Rightarrow> jsval \<Rightarrow> row option" where
  "payrollRecord rt payroll payrollNumber =
     find (\<lambda>p. toString rt (p ''payrollNumber'') = toString rt payrollNumber) payroll"

text \<open>\<^verbatim>\<open>!payrollRecord || payrollRecord.role !== role\<close>\<close>

definition payrollMismatch :: "runtime \<Rightarrow> row list \<Rightarrow> row \<Rightarrow> bool" where
  "payrollMismatch rt payroll body =
     (case payrollRecord rt payroll (body ''payrollNumber'') of
        None \<Rightarrow> True
      | Some p \<Rightarrow> \<not> strict_eq (p ''role'') (body ''role''))"

text \<open>
  \<^verbatim>\<open>const { username, password, role, payrollNumber } = req.body || {};
  if (!username || !password || !role || !payrollNumber)
    return res.json({ success: false, message: "All fields are required" });
  if (!Object.values(ROLES).includes(role))
    return res.json({ success: false, message: "Invalid role" });
  const users = readJSON(USERS_FILE);
  if (users.find((u) => u.username === username))
    return res.json({ success: false, message: "Username already exists" });
  const payroll = readJSON(PAYROLL_FILE);
  const payrollRecord = ...;
  if (!payrollRecord || payrollRecord.role !== role)
    return res.json({ success: false, message: "Payroll number mismatch" });
  users.push({ id: users.length ? Math.max(...users.map((u) => u.id || 0)) + 1 : 1,
    username, password, role, payrollNumber, createdAt: new Date().toISOString() });
  writeJSON(USERS_FILE, users);
  res.json({ success: true });\<close>
\<close>

definition fieldsPresent :: "row \<Rightarrow> bool" where
  "fieldsPresent body =
     (truthy (body ''username'') \<and> truthy (body ''password'') \<and>
      truthy (body ''role'') \<and> truthy (body ''payrollNumber''))"

definition validRole :: "jsval \<Rightarrow> bool" where
  "validRole role = list_ex (\<lambda>v. strict_eq (JStr v) role) ROLES"

definition usernameTaken :: "row list \<Rightarrow> jsval \<Rightarrow> bool" where
  "usernameTaken users username = list_ex (\<lambda>u. strict_eq (u ''username'') username) users"

definition register :: "runtime \<Rightarrow> row list \<Rightarrow> row list \<Rightarrow> row \<Rightarrow> (error + unit) \<times> row list" where
  "register rt users payroll body =
     (if \<not> fieldsPresent body then (Inl (Rejected ''All fields are required''), users)
      else if \<not> validRole (body ''role'') then (Inl (Rejected ''Invalid role''), users)
      else if usernameTaken users (body ''username'')
        then (Inl (Rejected ''Username already exists''), users)
      else if payrollMismatch rt payroll body
        then (Inl (Rejected ''Payroll number mismatch''), users)
      else
        (Inr (),
         users @
           [emptyObj
              (''id'' := of_number (nextIdAdd rt users),
               ''username'' := body ''username'',
               ''password'' := body ''password'',
               ''role'' := body ''role'',
               ''payrollNumber'' := body ''payrollNumber'',
               ''createdAt'' := JStr (nowISO rt))]))"

section \<open>The farm report store\<close>

subsection \<open>Strings\<close>

text \<open>
  \<open>trim\<close>, \<open>split\<close>, \<open>toLowerCase\<close> and \<open>parseInt(s, 10)\<close>. Among the
  characters below 256 the white space is tab, line feed, vertical tab, form feed, carriage
  return, space and the no-break space \<open>0xA0\<close>; the letters folded are A to Z and the
  capital letters of \<open>0xC0\<close> to \<open>0xDE\<close> (all but the multiplication sign
  \<open>0xD7\<close>), each to the character 32 places on. \<open>parseInt\<close> skips leading white
  space, reads one optional sign and the longest run of decimal digits, and gives \<open>NaN\<close>
  when there is no digit; its value is the double nearest to the integer read, which is
  that integer up to \<open>2\<^sup>5\<^sup>3\<close>.
\<close>

definition isWhite :: "char \<Rightarrow> bool" where
  "isWhite c =
     (c \<in> set [CHR '' '', CHR 0x09, CHR 0x0A, CHR 0x0B, CHR 0x0C, CHR 0x0D, CHR 0xA0])"

definition trim :: "string \<Rightarrow> string" where
  "trim s = rev (dropWhile isWhite (rev (dropWhile isWhite s)))"

definition isDigit :: "char \<Rightarrow> bool" where
  "isDigit c = (48 \<le> (of_char c :: nat) \<and> (of_char c :: nat) \<le> 57)"

definition digitsVal :: "string \<Rightarrow> nat" where
  "digitsVal ds = fold (\<lambda>c n. 10 * n + (of_char c - 48)) ds 0"

definition parseInt :: "runtime \<Rightarrow> string \<Rightarrow> number" where
  "parseInt rt str =
     (let S = dropWhile isWhite str;
          neg = (S \<noteq> [] \<and> hd S = CHR ''-'');
          S' = (if S \<noteq> [] \<and> (hd S = CHR ''+'' \<or> hd S = CHR ''-'') then tl S else S);
          Z = takeWhile isDigit S'
      in if Z = [] then NaN
         else if digitsVal Z \<le> 9007199254740992
           then Fin (if neg then - of_nat (digitsVal Z) else of_nat (digitsVal Z))
           else nearest rt (if neg then - of_nat (digitsVal Z) else of_nat (digitsVal Z)))"

fun split :: "char \<Rightarrow> string \<Rightarrow> string list" where
  "split sep [] = [[]]"
| "split sep (c # cs) =
     (if c = sep then [] # split sep cs
      else (case split sep cs of p # ps \<Rightarrow> (c # p) # ps | [] \<Rightarrow> [[c]]))"

definition upperLetters :: string where
  "upperLetters =
     ''ABCDEFGHIJKLMNOPQRSTUVWXYZ'' @
     [CHR 0xC0, CHR 0xC1, CHR 0xC2, CHR 0xC3, CHR 0xC4, CHR 0xC5, CHR 0xC6, CHR 0xC7,
      CHR 0xC8, CHR 0xC9, CHR 0xCA, CHR 0xCB, CHR 0xCC, CHR 0xCD, CHR 0xCE, CHR 0xCF,
      CHR 0xD0, CHR 0xD1, CHR 0xD2, CHR 0xD3, CHR 0xD4, CHR 0xD5, CHR 0xD6,
      CHR 0xD8, CHR 0xD9, CHR 0xDA, CHR 0xDB, CHR 0xDC, CHR 0xDD, CHR 0xDE]"

definition lowerLetters :: string where
  "lowerLetters =
     ''abcdefghijklmnopqrstuvwxyz'' @
     [CHR 0xE0, CHR 0xE1, CHR 0xE2, CHR 0xE3, CHR 0xE4, CHR 0xE5, CHR 0xE6, CHR 0xE7,
      CHR 0xE8, CHR 0xE9, CHR 0xEA, CHR 0xEB, CHR 0xEC, CHR 0xED, CHR 0xEE, CHR 0xEF,
      CHR 0xF0, CHR 0xF1, CHR 0xF2, CHR 0xF3, CHR 0xF4, CHR 0xF5, CHR 0xF6,
      CHR 0xF8, CHR 0xF9, CHR 0xFA, CHR 0xFB, CHR 0xFC, CHR 0xFD, CHR 0xFE]"

definition lowerChar :: "char \<Rightarrow> char" where
  "lowerChar c =
     (case map_of (zip upperLetters lowerLetters) c of
        Some d \<Rightarrow> d
      | None \<Rightarrow> c)"

definition toLowerCase :: "string \<Rightarrow> string" where
  "toLowerCase s = map lowerChar s"

subsection \<open>POST /farmreport\<close>

text \<open>\<^verbatim>\<open>String(v || "")\<close>\<close>

definition strOrEmpty :: "runtime \<Rightarrow> jsval \<Rightarrow> string" where
  "strOrEmpty rt v = toString rt (js_or v (JStr ''''))"

text \<open>
  \<^verbatim>\<open>const { year, weekRange, farm, greenhouse, bed, crop, variety, pest, disease,
          pestRate, diseaseRate } = req.body || {};
  if (!weekRange || !farm || !greenhouse)
    return res.status(400).json({ success: false, message: "weekRange, farm, greenhouse required" });
  const rows = readJSON(FARM_REPORT_FILE);
  const nextId = rows.reduce((m, r) => Math.max(m, r.id || 0), 0) + 1;
  rows.push({ id: nextId, year: String(year || ""), weekRange: String(weekRange).trim(),
    farm: String(farm || ""), greenhouse: String(greenhouse || ""), bed: String(bed || ""),
    crop: String(crop || ""), variety: String(variety || ""), pest: String(pest || ""),
    disease: String(disease || ""), pestRate: Number(pestRate) || 0,
    diseaseRate: Number(diseaseRate) || 0, createdAt: new Date().toISOString() });
  writeJSON(FARM_REPORT_FILE, rows);
  res.json({ success: true, id: nextId });\<close>
\<close>

definition farmreport_append ::
  "runtime \<Rightarrow> row list \<Rightarrow> row \<Rightarrow> (error + jsval) \<times> row list" where
  "farmreport_append rt rows body =
     (if \<not> truthy (body ''weekRange'') \<or> \<not> truthy (body ''farm'') \<or>
         \<not> truthy (body ''greenhouse'')
      then (Inl (BadRequest ''weekRange, farm, greenhouse required''), rows)
      else
        (let nextId = num_inc rt (maxIdSeeded rt rows) in
         (Inr (of_number nextId),
          rows @
            [emptyObj
               (''id'' := of_number nextId,
                ''year'' := JStr (strOrEmpty rt (body ''year'')),
                ''weekRange'' := JStr (trim (toString rt (body ''weekRange''))),
                ''farm'' := JStr (strOrEmpty rt (body ''farm'')),
                ''greenhouse'' := JStr (strOrEmpty rt (body ''greenhouse'')),
                ''bed'' := JStr (strOrEmpty rt (body ''bed'')),
                ''crop'' := JStr (strOrEmpty rt (body ''crop'')),
                ''variety'' := JStr (strOrEmpty rt (body ''variety'')),
                ''pest'' := JStr (strOrEmpty rt (body ''pest'')),
                ''disease'' := JStr (strOrEmpty rt (body ''disease'')),
                ''pestRate'' := of_number (orZero (toNumber rt (body ''pestRate''))),
                ''diseaseRate'' := of_number (orZero (toNumber rt (body ''diseaseRate''))),
                ''createdAt'' := JStr (nowISO rt))])))"

subsection \<open>Searching the farm report\<close>

text \<open>
  \<^verbatim>\<open>function parseWeekRange(weekRangeStr = "") {
    const s = String(weekRangeStr || "").trim();
    const parts = s.split("-");
    if (parts.length === 2) {
      const start = parseInt(parts[0], 10);
      const end = parseInt(parts[1], 10);
      if (!isNaN(start) && !isNaN(end)) return { start, end };
    }
    const single = parseInt(s, 10);
    if (!isNaN(single)) return { start: single, end: single };
    return { start: NaN, end: NaN };
  }\<close>
\<close>

definition parseWeekRange :: "runtime \<Rightarrow> jsval \<Rightarrow> number \<times> number" where
  "parseWeekRange rt weekRangeStr =
     (let s = trim (strOrEmpty rt weekRangeStr);
          parts = split CHR ''-'' s
      in if length parts = 2 \<and> parseInt rt (parts ! 0) \<noteq> NaN \<and> parseInt rt (parts ! 1) \<noteq> NaN
         then (parseInt rt (parts ! 0), parseInt rt (parts ! 1))
         else if parseInt rt s \<noteq> NaN then (parseInt rt s, parseInt rt s)
         else (NaN, NaN))"

text \<open>
  A filter of the query is given when \<^verbatim>\<open>v !== undefined && v !== ""\<close>; the week
  bounds are then \<open>parseInt(v, 10)\<close>, the rate bounds \<open>Number(v)\<close>, and \<open>null\<close>
  (here \<open>None\<close>) otherwise. A \<open>null\<close> in a comparison reads as 0.
\<close>

definition given :: "jsval \<Rightarrow> bool" where
  "given v = (v \<noteq> Undefined \<and> v \<noteq> JStr '''')"

definition weekBound :: "runtime \<Rightarrow> jsval \<Rightarrow> number option" where
  "weekBound rt v = (if given v then Some (parseInt rt (toString rt v)) else None)"

definition rateBound :: "runtime \<Rightarrow> jsval \<Rightarrow> number option" where
  "rateBound rt v = (if given v then Some (toNumber rt v) else None)"

fun optNum :: "number option \<Rightarrow> number" where
  "optNum None = Fin 0"
| "optNum (Some n) = n"

text \<open>
  \<^verbatim>\<open>const { start, end } = parseWeekRange(r.weekRange);
  const s = isNaN(start) ? null : start;
  const e = isNaN(end) ? s : end;
  if (s === null) return false;
  if (wf !== null && s < wf) return false;
  if (wt !== null && e > wt) return false;\<close>
\<close>

definition weekPasses :: "number option \<Rightarrow> number option \<Rightarrow> number \<times> number \<Rightarrow> bool" where
  "weekPasses wFrom wTo parsed =
     (case parsed of (wkStart, wkEnd) \<Rightarrow>
        (let s = (if wkStart = NaN then None else Some wkStart);
             e = (if wkEnd = NaN then s else Some wkEnd)
         in if s = None then False
            else if wFrom \<noteq> None \<and> num_lt (optNum s) (optNum wFrom) then False
            else if wTo \<noteq> None \<and> num_gt (optNum e) (optNum wTo) then False
            else True))"

text \<open>
  \<^verbatim>\<open>if (year && String(r.year || "").toLowerCase() !== String(year).toLowerCase()) return false;\<close>
  and the same for farm, greenhouse, bed, crop, variety, pest and disease;
  \<^verbatim>\<open>const pr = Number(r.pestRate) || 0;
  if (pMin !== null && pr < pMin) return false;
  if (pMax !== null && pr > pMax) return false;\<close>
  and the same for the disease rate.
\<close>

definition fieldPasses :: "runtime \<Rightarrow> row \<Rightarrow> row \<Rightarrow> string \<Rightarrow> bool" where
  "fieldPasses rt query r k =
     (\<not> (truthy (query k) \<and>
         toLowerCase (strOrEmpty rt (r k)) \<noteq> toLowerCase (toString rt (query k))))"

definition ratePasses :: "runtime \<Rightarrow> number option \<Rightarrow> number option \<Rightarrow> jsval \<Rightarrow> bool" where
  "ratePasses rt lo hi v =
     (let x = orZero (toNumber rt v)
      in \<not> (lo \<noteq> None \<and> num_lt x (optNum lo)) \<and> \<not> (hi \<noteq> None \<and> num_gt x (optNum hi)))"

definition otherFiltersPass :: "runtime \<Rightarrow> row \<Rightarrow> row \<Rightarrow> bool" where
  "otherFiltersPass rt query r =
     (fieldPasses rt query r ''year'' \<and>
      fieldPasses rt query r ''farm'' \<and>
      fieldPasses rt query r ''greenhouse'' \<and>
      fieldPasses rt query r ''bed'' \<and>
      fieldPasses rt query r ''crop'' \<and>
      fieldPasses rt query r ''variety'' \<and>
      fieldPasses rt query r ''pest'' \<and>
      fieldPasses rt query r ''disease'' \<and>
      ratePasses rt (rateBound rt (query ''pestRateMin'')) (rateBound rt (query ''pestRateMax''))
        (r ''pestRate'') \<and>
      ratePasses rt (rateBound rt (query ''diseaseRateMin''))
        (rateBound rt (query ''diseaseRateMax'')) (r ''diseaseRate''))"

definition rowPasses :: "runtime \<Rightarrow> row \<Rightarrow> row \<Rightarrow> bool" where
  "rowPasses rt query r =
     (let wFrom = weekBound rt (query ''weekFrom''); wTo = weekBound rt (query ''weekTo'')
      in (if wFrom \<noteq> None \<or> wTo \<noteq> None
          then weekPasses wFrom wTo (parseWeekRange rt (r ''weekRange'')) else True) \<and>
         otherFiltersPass rt query r)"

text \<open>
  \<^verbatim>\<open>filtered.sort((a, b) => {
    const aT = a.createdAt ? new Date(a.createdAt).getTime() : 0;
    const bT = b.createdAt ? new Date(b.createdAt).getTime() : 0;
    if (aT !== bT) return bT - aT;
    return (b.id || 0) - (a.id || 0);
  });\<close>
\<close>

definition createdTime :: "runtime \<Rightarrow> row \<Rightarrow> number" where
  "createdTime rt r = (if truthy (r ''createdAt'') then dateTime rt (r ''createdAt'') else Fin 0)"

definition compareRows :: "runtime \<Rightarrow> row \<Rightarrow> row \<Rightarrow> number" where
  "compareRows rt a b =
     (let aT = createdTime rt a; bT = createdTime rt b
      in if \<not> (aT = bT \<and> aT \<noteq> NaN) then num_sub bT aT
         else num_sub (idNum rt b) (idNum rt a))"

text \<open>
  \<open>Array.prototype.sort\<close> with a comparison function is a stable sort; a result of
  the comparison that is \<open>NaN\<close> counts as 0. It is modelled by insertion from the right,
  which is stable: an element is put in front of the first element it does not compare
  greater than. For a comparison that is a consistent ordering every stable sort gives
  this same array.
\<close>

fun insertBy :: "('a \<Rightarrow> 'a \<Rightarrow> number) \<Rightarrow> 'a \<Rightarrow> 'a list \<Rightarrow> 'a list" where
  "insertBy cmp x [] = [x]"
| "insertBy cmp x (y # ys) =
     (if num_lt (Fin 0) (cmp x y) then y # insertBy cmp x ys else x # y # ys)"

definition sortBy :: "('a \<Rightarrow> 'a \<Rightarrow> number) \<Rightarrow> 'a list \<Rightarrow> 'a list" where
  "sortBy cmp xs = foldr (insertBy cmp) xs []"

definition filterFarmRows :: "runtime \<Rightarrow> row \<Rightarrow> row list \<Rightarrow> row list" where
  "filterFarmRows rt query rows = sortBy (compareRows rt) (filter (rowPasses rt query) rows)"


text \<open>The order the search promises: the later time stamp first, and among equal time
  stamps the greater identifier first. A row is sortable when its time stamp and its
  identifier read as finite numbers.\<close>

definition newerFirst :: "runtime \<Rightarrow> row \<Rightarrow> row \<Rightarrow> bool" where
  "newerFirst rt a b =
     (num_or0 (createdTime rt a) > num_or0 (createdTime rt b) \<or>
      (num_or0 (createdTime rt a) = num_or0 (createdTime rt b) \<and>
       num_or0 (idNum rt a) \<ge> num_or0 (idNum rt b)))"

definition sortable :: "runtime \<Rightarrow> row \<Rightarrow> bool" where
  "sortable rt r = (isFin (createdTime rt r) \<and> isFin (idNum rt r))"

subsection \<open>A runtime for the closed examples\<close>

text \<open>
  The examples below hold numbers where the code reads numbers and strings where it reads
  strings, and time stamps as milliseconds (\<open>new Date(n).getTime()\<close> is \<open>n\<close> for
  a whole number of milliseconds). The strings an example gives to \<open>Number\<close> are
  \<open>1e999\<close>, which is beyond the doubles and reads as \<open>Infinity\<close>, and text that is
  not a numeral, which reads as \<open>NaN\<close>. The one value an example has rounded is
  \<open>2\<^sup>5\<^sup>3 + 1\<close>: it lies halfway between the doubles \<open>2\<^sup>5\<^sup>3\<close> and
  \<open>2\<^sup>5\<^sup>3 + 2\<close> and rounds to the one with the even mantissa, \<open>2\<^sup>5\<^sup>3\<close>.
  No example depends on another conversion of this runtime.
\<close>

definition exampleRuntime :: runtime where
  "exampleRuntime =
     \<lparr> numToStr = (\<lambda>q. ''''),
       strToNum = (\<lambda>s. if s = ''1e999'' then PosInf else NaN),
       otherToStr = (\<lambda>t. ''[object Object]''),
       dateTime = (\<lambda>v. case v of JNum q \<Rightarrow> Fin q | _ \<Rightarrow> NaN),
       nowISO = ''2025-01-01T00:00:00.000Z'',
       nearest = (\<lambda>q. if q = 9007199254740993 then Fin 9007199254740992 else Fin q) \<rparr>"

section \<open>Properties\<close>

text \<open>
  C10. Whatever the request body of the add operation holds, the row that is stored (the
  last row of the collection, which is also the row sent back) has \<open>supervisorRemarks\<close>
  equal to the empty string, and the rows stored before are kept.
\<close>

theorem add_overrides_supervisorRemarks:
  "fst (agro_add rt rows body) = rows @ [snd (agro_add rt rows body)] \<and>
   snd (agro_add rt rows body) ''supervisorRemarks'' = JStr ''''"
  by (simp add: agro_add_def Let_def)


subsection \<open>Identifiers assigned by add\<close>

lemma fold_num_max_Fin:
  "list_all isFin ns \<Longrightarrow>
   fold (\<lambda>x m. num_max m x) ns (Fin a) = Fin (Max (insert a (set (map num_or0 ns))))"
proof (induction ns arbitrary: a)
  case Nil
  then show ?case by simp
next
  case (Cons n ns)
  then obtain b where n: "n = Fin b" by (cases n) auto
  have "fold (\<lambda>x m. num_max m x) (n # ns) (Fin a) = fold (\<lambda>x m. num_max m x) ns (Fin (max a b))"
    by (simp add: n)
  also have "\<dots> = Fin (Max (insert (max a b) (set (map num_or0 ns))))"
    using Cons by simp
  also have "Max (insert (max a b) (set (map num_or0 ns))) = Max (insert a (set (map num_or0 (n # ns))))"
    by (cases "set ns = {}") (simp_all add: n max.assoc)
  finally show ?case .
qed

lemma idsWithRoom_elem:
  assumes "idsWithRoom rt rows n" "r \<in> set rows"
  shows "\<exists>a. idNum rt r = Fin a \<and> of_int \<lfloor>a\<rfloor> = a \<and> - 9007199254740992 \<le> a \<and>
             a + of_nat n \<le> 9007199254740992"
proof -
  have "case idNum rt r of
          Fin a \<Rightarrow> of_int \<lfloor>a\<rfloor> = a \<and> - 9007199254740992 \<le> a \<and>
                   a + of_nat n \<le> 9007199254740992
        | _ \<Rightarrow> False"
    using assms unfolding idsWithRoom_def list_all_iff by blast
  then show ?thesis by (cases "idNum rt r") simp_all
qed

lemma idsWithRoom_fin: "idsWithRoom rt rows n \<Longrightarrow> list_all (\<lambda>r. isFin (idNum rt r)) rows"
  unfolding list_all_iff using idsWithRoom_elem by fastforce

lemma idsWithRoom_bounds:
  assumes "idsWithRoom rt rows n" "r \<in> set rows"
  shows "of_int \<lfloor>num_or0 (idNum rt r)\<rfloor> = num_or0 (idNum rt r) \<and>
         - 9007199254740992 \<le> num_or0 (idNum rt r) \<and>
         num_or0 (idNum rt r) + of_nat n \<le> 9007199254740992"
proof -
  from idsWithRoom_elem[OF assms] obtain a where
    a: "idNum rt r = Fin a" "of_int \<lfloor>a\<rfloor> = a" "- 9007199254740992 \<le> a"
       "a + of_nat n \<le> 9007199254740992"
    by blast
  show ?thesis unfolding a(1) num_or0.simps using a(2,3,4) by blast
qed

lemma maxId_safe:
  assumes "idsWithRoom rt rows (Suc n)" "rows \<noteq> []"
  shows "safeInt (Max (set (map (\<lambda>r. num_or0 (idNum rt r)) rows)))"
proof -
  let ?S = "set (map (\<lambda>r. num_or0 (idNum rt r)) rows)"
  have "Max ?S \<in> ?S" using assms(2) by (intro Max_in) simp_all
  then obtain r where r: "r \<in> set rows" "Max ?S = num_or0 (idNum rt r)" by auto
  from idsWithRoom_bounds[OF assms(1) r(1)]
  have int: "of_int \<lfloor>Max ?S\<rfloor> = Max ?S" and lo: "- 9007199254740992 \<le> Max ?S"
    and hi: "Max ?S + of_nat (Suc n) \<le> 9007199254740992"
    unfolding r(2) by blast+
  have "(0::rat) \<le> of_nat n" by simp
  with hi have "Max ?S < 9007199254740992" by simp
  with int lo show ?thesis unfolding safeInt_def by blast
qed

lemma nextIdAdd_numeric:
  assumes "idsWithRoom rt rows (Suc n)"
  shows "nextIdAdd rt rows = Fin (maxIdPlusOne rt rows)"
proof (cases rows)
  case Nil
  then show ?thesis by (simp add: nextIdAdd_def maxIdPlusOne_def)
next
  case (Cons r rs)
  have fin: "list_all (\<lambda>r. isFin (idNum rt r)) rows"
    using assms by (rule idsWithRoom_fin)
  then obtain a where a: "idNum rt r = Fin a"
    by (cases "idNum rt r") (auto simp: Cons)
  have rs: "list_all isFin (map (idNum rt) rs)"
    using fin by (simp add: Cons list_all_iff)
  have "fold (\<lambda>x m. num_max m x) (map (idNum rt) rs) (idNum rt r) =
        Fin (Max (set (map (\<lambda>r. num_or0 (idNum rt r)) rows)))"
    using fold_num_max_Fin[OF rs, of a] by (simp add: Cons a comp_def)
  moreover have "safeInt (Max (set (map (\<lambda>r. num_or0 (idNum rt r)) rows)))"
    using assms by (intro maxId_safe) (simp_all add: Cons)
  ultimately show ?thesis
    by (simp add: nextIdAdd_def maxIdPlusOne_def Cons)
qed

lemma idNum_JNum: "r ''id'' = JNum q \<Longrightarrow> idNum rt r = Fin q"
  by (simp add: idNum_def js_or_def)

lemma maxIdPlusOne_above:
  "r \<in> set rows \<Longrightarrow> num_or0 (idNum rt r) < maxIdPlusOne rt rows"
proof -
  assume r: "r \<in> set rows"
  then have ne: "rows \<noteq> []" by auto
  have "num_or0 (idNum rt r) \<le> Max (set (map (\<lambda>r. num_or0 (idNum rt r)) rows))"
    using r by (intro Max_ge) auto
  then show ?thesis using ne by (simp add: maxIdPlusOne_def)
qed

lemma agro_add_id:
  assumes "idsWithRoom rt rows (Suc n)" "body ''id'' = Undefined"
  shows "snd (agro_add rt rows body) ''id'' = JNum (maxIdPlusOne rt rows)"
  using assms(2) nextIdAdd_numeric[OF assms(1)]
  by (simp add: agro_add_def Let_def spread_def)

lemma maxIdPlusOne_room:
  assumes "idsWithRoom rt rows (Suc n)"
  shows "of_int \<lfloor>maxIdPlusOne rt rows\<rfloor> = maxIdPlusOne rt rows \<and>
         - 9007199254740992 \<le> maxIdPlusOne rt rows \<and>
         maxIdPlusOne rt rows + of_nat n \<le> 9007199254740992"
proof (cases "rows = []")
  case True
  then show ?thesis using assms by (simp add: maxIdPlusOne_def idsWithRoom_def)
next
  case False
  let ?S = "set (map (\<lambda>r. num_or0 (idNum rt r)) rows)"
  have "Max ?S \<in> ?S" using False by (intro Max_in) simp_all
  then obtain r where r: "r \<in> set rows" "Max ?S = num_or0 (idNum rt r)" by auto
  from idsWithRoom_bounds[OF assms r(1)]
  have int: "of_int \<lfloor>Max ?S\<rfloor> = Max ?S" and lo: "- 9007199254740992 \<le> Max ?S"
    and hi: "Max ?S + of_nat (Suc n) \<le> 9007199254740992"
    unfolding r(2) by blast+
  from int obtain z :: int where z: "Max ?S = of_int z" by metis
  have int': "of_int \<lfloor>Max ?S + 1\<rfloor> = Max ?S + 1"
    unfolding z by simp
  have lo': "- 9007199254740992 \<le> Max ?S + 1" using lo by simp
  have hi': "Max ?S + 1 + of_nat n \<le> 9007199254740992" using hi by simp
  have "maxIdPlusOne rt rows = Max ?S + 1" using False by (simp add: maxIdPlusOne_def)
  with int' lo' hi' show ?thesis by (simp only:)
qed

lemma agro_add_room:
  assumes "idsWithRoom rt rows (Suc n)" "body ''id'' = Undefined"
  shows "idsWithRoom rt (fst (agro_add rt rows body)) n"
proof -
  have new: "idNum rt (snd (agro_add rt rows body)) = Fin (maxIdPlusOne rt rows)"
    using agro_add_id[where rt = rt and rows = rows and n = n and body = body] assms
    by (simp add: idNum_JNum)
  have n: "of_nat n \<le> (9007199254740992 :: rat)"
    using assms(1) by (simp add: idsWithRoom_def)
  have old: "case idNum rt r of
          Fin a \<Rightarrow> of_int \<lfloor>a\<rfloor> = a \<and> - 9007199254740992 \<le> a \<and>
                   a + of_nat n \<le> 9007199254740992
        | _ \<Rightarrow> False" if "r \<in> set rows" for r
  proof -
    from idsWithRoom_elem[OF assms(1) that] obtain a where
      a: "idNum rt r = Fin a" "of_int \<lfloor>a\<rfloor> = a" "- 9007199254740992 \<le> a"
         "a + of_nat (Suc n) \<le> 9007199254740992"
      by blast
    have "a + of_nat n \<le> 9007199254740992" using a(4) by simp
    with a(2,3) show ?thesis unfolding a(1) number.case by blast
  qed
  have newrow: "case idNum rt (snd (agro_add rt rows body)) of
          Fin a \<Rightarrow> of_int \<lfloor>a\<rfloor> = a \<and> - 9007199254740992 \<le> a \<and>
                   a + of_nat n \<le> 9007199254740992
        | _ \<Rightarrow> False"
    unfolding new number.case using maxIdPlusOne_room[OF assms(1)] .
  have rows': "fst (agro_add rt rows body) = rows @ [snd (agro_add rt rows body)]"
    by (simp add: agro_add_def Let_def)
  show ?thesis
    unfolding rows' idsWithRoom_def list_all_iff using n old newrow by auto
qed

lemma add_all_ids:
  "idsWithRoom rt rows (length bodies) \<Longrightarrow> list_all (\<lambda>b. b ''id'' = Undefined) bodies \<Longrightarrow>
   \<exists>qs. map (\<lambda>r. r ''id'') (snd (add_all rt rows bodies)) = map JNum qs \<and>
        sorted_wrt (<) qs \<and>
        list_all (\<lambda>q. list_all (\<lambda>r. num_or0 (idNum rt r) < q) rows) qs"
proof (induction bodies arbitrary: rows)
  case Nil
  then show ?case by simp
next
  case (Cons b bs)
  let ?rows' = "fst (agro_add rt rows b)"
  let ?new = "snd (agro_add rt rows b)"
  have room: "idsWithRoom rt rows (Suc (length bs))"
    using Cons.prems(1) by simp
  have b: "b ''id'' = Undefined" and bs: "list_all (\<lambda>b. b ''id'' = Undefined) bs"
    using Cons.prems(2) by simp_all
  have num': "idsWithRoom rt ?rows' (length bs)"
    using agro_add_room[where rt = rt and rows = rows and n = "length bs" and body = b] room b
    by blast
  have newid: "?new ''id'' = JNum (maxIdPlusOne rt rows)"
    using agro_add_id[where rt = rt and rows = rows and n = "length bs" and body = b] room b
    by blast
  have rows': "?rows' = rows @ [?new]"
    by (simp add: agro_add_def Let_def)
  from Cons.IH[OF num' bs] obtain qs where
    qs: "map (\<lambda>r. r ''id'') (snd (add_all rt ?rows' bs)) = map JNum qs"
      "sorted_wrt (<) qs"
      "list_all (\<lambda>q. list_all (\<lambda>r. num_or0 (idNum rt r) < q) ?rows') qs"
    by blast
  have snd_eq: "snd (add_all rt rows (b # bs)) = ?new # snd (add_all rt ?rows' bs)"
    by (simp add: split_beta)
  have above: "list_all (\<lambda>q. maxIdPlusOne rt rows < q) qs"
    using qs(3) newid by (simp add: rows' list_all_iff idNum_JNum)
  have old: "list_all (\<lambda>r. num_or0 (idNum rt r) < maxIdPlusOne rt rows) rows"
    by (simp add: list_all_iff maxIdPlusOne_above)
  have "map (\<lambda>r. r ''id'') (snd (add_all rt rows (b # bs))) = map JNum (maxIdPlusOne rt rows # qs)"
    unfolding snd_eq using qs(1) newid by simp
  moreover have "sorted_wrt (<) (maxIdPlusOne rt rows # qs)"
    using qs(2) above by (simp add: list_all_iff)
  moreover have "list_all (\<lambda>q. list_all (\<lambda>r. num_or0 (idNum rt r) < q) rows) (maxIdPlusOne rt rows # qs)"
    using qs(3) old by (simp add: rows' list_all_iff)
  ultimately show ?case by blast
qed

lemma add_all_room:
  "idsWithRoom rt rows (length bodies) \<Longrightarrow> list_all (\<lambda>b. b ''id'' = Undefined) bodies \<Longrightarrow>
   k \<le> length bodies \<Longrightarrow>
   idsWithRoom rt (fst (add_all rt rows (take k bodies))) (length bodies - k)"
proof (induction bodies arbitrary: rows k)
  case Nil
  then show ?case by simp
next
  case (Cons b bs)
  show ?case
  proof (cases k)
    case 0
    then show ?thesis using Cons.prems(1) by simp
  next
    case (Suc j)
    have "idsWithRoom rt (fst (agro_add rt rows b)) (length bs)"
      using agro_add_room[where rt = rt and rows = rows and n = "length bs" and body = b]
        Cons.prems(1,2) by simp
    then have "idsWithRoom rt (fst (add_all rt (fst (agro_add rt rows b)) (take j bs))) (length bs - j)"
      using Cons.prems(2,3) Suc by (intro Cons.IH) simp_all
    then show ?thesis by (simp add: Suc split_beta)
  qed
qed

lemma add_all_nth:
  "k < length bodies \<Longrightarrow>
   snd (add_all rt rows bodies) ! k =
     snd (agro_add rt (fst (add_all rt rows (take k bodies))) (bodies ! k))"
proof (induction bodies arbitrary: rows k)
  case Nil
  then show ?case by simp
next
  case (Cons b bs)
  show ?case
  proof (cases k)
    case 0
    then show ?thesis by (simp add: split_beta)
  next
    case (Suc j)
    then have "j < length bs" using Cons.prems by simp
    from Cons.IH[OF this, of "fst (agro_add rt rows b)"] show ?thesis
      by (simp add: Suc split_beta)
  qed
qed

lemma add_all_length: "length (snd (add_all rt rows bodies)) = length bodies"
  by (induction bodies arbitrary: rows) (simp_all add: split_beta)

text \<open>
  C5 (as amended). Take a sequence of add calls whose request bodies carry no \<open>id\<close>
  field, and a stored collection whose identifiers all read as integers, at least
  \<open>-2\<^sup>5\<^sup>3\<close>, with room for the calls: each identifier plus the number of calls is
  at most \<open>2\<^sup>5\<^sup>3\<close>. Then the identifiers of the added rows are numbers, strictly
  increasing along the sequence; the identifier given by call \<open>k\<close> is one plus the
  greatest identifier stored when that call runs (1 when nothing is stored), and no row
  stored at that moment has it.
\<close>

theorem add_ids_strictly_increasing:
  assumes "idsWithRoom rt rows (length bodies)"
    and "list_all (\<lambda>b. b ''id'' = Undefined) bodies"
  shows "\<exists>qs. map (\<lambda>r. r ''id'') (snd (add_all rt rows bodies)) = map JNum qs \<and>
           sorted_wrt (<) qs \<and>
           (\<forall>k<length bodies.
              qs ! k = maxIdPlusOne rt (fst (add_all rt rows (take k bodies))) \<and>
              (\<forall>r\<in>set (fst (add_all rt rows (take k bodies))). r ''id'' \<noteq> JNum (qs ! k)))"
proof -
  from add_all_ids[OF assms] obtain qs where
    qs: "map (\<lambda>r. r ''id'') (snd (add_all rt rows bodies)) = map JNum qs"
    and sorted: "sorted_wrt (<) qs"
    by blast
  have len: "length qs = length bodies"
    using arg_cong[OF qs, of length] by (simp add: add_all_length)
  have step: "qs ! k = maxIdPlusOne rt (fst (add_all rt rows (take k bodies))) \<and>
              (\<forall>r\<in>set (fst (add_all rt rows (take k bodies))). r ''id'' \<noteq> JNum (qs ! k))"
    if k: "k < length bodies" for k
  proof -
    let ?st = "fst (add_all rt rows (take k bodies))"
    have "idsWithRoom rt ?st (length bodies - k)"
      using assms k by (intro add_all_room) simp_all
    moreover have "length bodies - k = Suc (length bodies - k - 1)"
      using k by simp
    ultimately have room: "idsWithRoom rt ?st (Suc (length bodies - k - 1))"
      by simp
    have noid: "(bodies ! k) ''id'' = Undefined"
      using assms(2) k by (simp add: list_all_length)
    have "(snd (add_all rt rows bodies) ! k) ''id'' = JNum (maxIdPlusOne rt ?st)"
      using agro_add_id[where rt = rt and rows = ?st and n = "length bodies - k - 1"
          and body = "bodies ! k"] room noid
      by (simp add: add_all_nth[OF k])
    moreover have "map (\<lambda>r. r ''id'') (snd (add_all rt rows bodies)) ! k = JNum (qs ! k)"
      using k len by (simp add: qs)
    ultimately have eq: "qs ! k = maxIdPlusOne rt ?st"
      using k by (simp add: add_all_length)
    have "r ''id'' \<noteq> JNum (qs ! k)" if r: "r \<in> set ?st" for r
    proof
      assume "r ''id'' = JNum (qs ! k)"
      then have "num_or0 (idNum rt r) = qs ! k" by (simp add: idNum_JNum)
      with maxIdPlusOne_above[OF r, of rt] eq show False by simp
    qed
    with eq show ?thesis by blast
  qed
  from qs sorted step show ?thesis by blast
qed

theorem add_ids_strictly_increasing_witness:
  "idsWithRoom exampleRuntime [emptyObj(''id'' := JNum 5)] 2 \<and>
   list_all (\<lambda>b. b ''id'' = Undefined)
     [emptyObj(''farm'' := JStr ''A''), emptyObj(''farm'' := JStr ''B'')] \<and>
   (\<exists>qs. map (\<lambda>r. r ''id'')
           (snd (add_all exampleRuntime [emptyObj(''id'' := JNum 5)]
                  [emptyObj(''farm'' := JStr ''A''), emptyObj(''farm'' := JStr ''B'')])) =
         map JNum qs \<and>
         sorted_wrt (<) qs \<and> qs ! 0 = 6 \<and> qs ! 1 = 7)"
proof -
  let ?rows = "[emptyObj(''id'' := JNum 5)]"
  let ?bodies = "[emptyObj(''farm'' := JStr ''A''), emptyObj(''farm'' := JStr ''B'')]"
  have h1: "idsWithRoom exampleRuntime ?rows (length ?bodies)"
    by (simp add: idsWithRoom_def idNum_def js_or_def emptyObj_def)
  have h2: "list_all (\<lambda>b. b ''id'' = Undefined) ?bodies"
    by (simp add: emptyObj_def)
  from add_ids_strictly_increasing[OF h1 h2] obtain qs where
    qs: "map (\<lambda>r. r ''id'') (snd (add_all exampleRuntime ?rows ?bodies)) = map JNum qs"
      "sorted_wrt (<) qs"
      "\<forall>k<length ?bodies.
         qs ! k = maxIdPlusOne exampleRuntime (fst (add_all exampleRuntime ?rows (take k ?bodies)))"
    by blast
  have "qs ! 0 = maxIdPlusOne exampleRuntime (fst (add_all exampleRuntime ?rows (take 0 ?bodies)))"
    using qs(3) by simp
  then have q0: "qs ! 0 = 6"
    by (simp add: maxIdPlusOne_def idNum_def js_or_def emptyObj_def)
  have "qs ! 1 = maxIdPlusOne exampleRuntime (fst (add_all exampleRuntime ?rows (take 1 ?bodies)))"
    using qs(3) by simp
  then have q1: "qs ! 1 = 7"
    by (simp add: maxIdPlusOne_def idNum_def js_or_def emptyObj_def agro_add_def Let_def
        spread_def nextIdAdd_def safeInt_def)
  have h1': "idsWithRoom exampleRuntime ?rows 2" using h1 by (simp add: numeral_2_eq_2)
  from h1' h2 qs(1,2) q0 q1 show ?thesis by blast
qed

text \<open>
  The claim as it stands fails in three ways. A request body that carries an \<open>id\<close> is
  spread after the computed identifier and wins: with one stored row of identifier 1 and
  the body \<open>{id: 1}\<close>, the added row has identifier 1 again, not 2. Identifiers are
  doubles: with a stored identifier \<open>2\<^sup>5\<^sup>3\<close> the computed \<open>max + 1\<close> is
  \<open>2\<^sup>5\<^sup>3\<close> again. And a stored identifier that does not read as a number makes the
  computed one \<open>NaN\<close>, written as \<open>null\<close>.
\<close>

theorem add_ids_counterexample:
  "snd (agro_add exampleRuntime [emptyObj(''id'' := JNum 1)] (emptyObj(''id'' := JNum 1))) ''id''
     = JNum 1 \<and>
   ([emptyObj(''id'' := JNum 1)] ! 0) ''id'' = JNum 1 \<and>
   maxIdPlusOne exampleRuntime [emptyObj(''id'' := JNum 1)] = 2 \<and>
   snd (agro_add exampleRuntime [emptyObj(''id'' := JNum 9007199254740992)] emptyObj) ''id''
     = JNum 9007199254740992 \<and>
   written (snd (agro_add exampleRuntime [emptyObj(''id'' := JStr ''seven'')] emptyObj) ''id'')
     = Null"
  by (simp add: agro_add_def Let_def spread_def maxIdPlusOne_def idNum_def js_or_def emptyObj_def
      nextIdAdd_def safeInt_def exampleRuntime_def)

subsection \<open>Supervisor remarks\<close>

lemma findIndex_None: "findIndex p xs = None \<longleftrightarrow> (\<forall>x\<in>set xs. \<not> p x)"
  by (induction xs) auto

lemma findIndex_Some:
  "findIndex p xs = Some i \<Longrightarrow> i < length xs \<and> p (xs ! i) \<and> (\<forall>j<i. \<not> p (xs ! j))"
proof (induction xs arbitrary: i)
  case Nil
  then show ?case by simp
next
  case (Cons x xs)
  show ?case
  proof (cases "p x")
    case True
    with Cons.prems show ?thesis by simp
  next
    case False
    with Cons.prems obtain k where k: "findIndex p xs = Some k" "i = Suc k"
      by auto
    from Cons.IH[OF k(1)] False show ?thesis
      by (auto simp: k(2) nth_Cons split: nat.splits)
  qed
qed

text \<open>
  C6 (as amended). The request carries a truthy \<open>id\<close>. If no stored row has an
  identifier strictly equal to \<open>Number(id)\<close>, the reply is not-found and the stored
  collection is what it was. Otherwise the first such row gets \<open>supervisorRemarks\<close>
  set to the text sent (the empty string when that is absent or falsy), its other fields
  and all other rows are kept, and the reply is success.
\<close>

theorem supervisor_remarks_patch:
  assumes "truthy (body ''id'')"
  shows "((\<forall>r\<in>set rows. \<not> matchesId rt (body ''id'') r) \<longrightarrow>
            supervisor_remarks rt rows body = (Inl (NotFound ''Not found''), rows)) \<and>
         ((\<exists>r\<in>set rows. matchesId rt (body ''id'') r) \<longrightarrow>
            (\<exists>idx<length rows.
               matchesId rt (body ''id'') (rows ! idx) \<and>
               (\<forall>j<idx. \<not> matchesId rt (body ''id'') (rows ! j)) \<and>
               fst (supervisor_remarks rt rows body) = Inr () \<and>
               length (snd (supervisor_remarks rt rows body)) = length rows \<and>
               (snd (supervisor_remarks rt rows body) ! idx) ''supervisorRemarks'' =
                 js_or (body ''supervisorRemarks'') (JStr '''') \<and>
               (\<forall>k. k \<noteq> ''supervisorRemarks'' \<longrightarrow>
                  (snd (supervisor_remarks rt rows body) ! idx) k = (rows ! idx) k) \<and>
               (\<forall>j<length rows. j \<noteq> idx \<longrightarrow>
                  snd (supervisor_remarks rt rows body) ! j = rows ! j)))"
proof (intro conjI impI)
  assume "\<forall>r\<in>set rows. \<not> matchesId rt (body ''id'') r"
  then have "findIndex (matchesId rt (body ''id'')) rows = None"
    by (simp add: findIndex_None)
  with assms show "supervisor_remarks rt rows body = (Inl (NotFound ''Not found''), rows)"
    by (simp add: supervisor_remarks_def Let_def)
next
  assume "\<exists>r\<in>set rows. matchesId rt (body ''id'') r"
  then have "findIndex (matchesId rt (body ''id'')) rows \<noteq> None"
    by (simp add: findIndex_None)
  then obtain idx where idx: "findIndex (matchesId rt (body ''id'')) rows = Some idx"
    by blast
  note found = findIndex_Some[OF idx]
  have res: "supervisor_remarks rt rows body =
      (Inr (), rows[idx := (rows ! idx)
                  (''supervisorRemarks'' := js_or (body ''supervisorRemarks'') (JStr ''''))])"
    using assms idx by (simp add: supervisor_remarks_def Let_def)
  show "\<exists>idx<length rows.
          matchesId rt (body ''id'') (rows ! idx) \<and>
          (\<forall>j<idx. \<not> matchesId rt (body ''id'') (rows ! j)) \<and>
          fst (supervisor_remarks rt rows body) = Inr () \<and>
          length (snd (supervisor_remarks rt rows body)) = length rows \<and>
          (snd (supervisor_remarks rt rows body) ! idx) ''supervisorRemarks'' =
            js_or (body ''supervisorRemarks'') (JStr '''') \<and>
          (\<forall>k. k \<noteq> ''supervisorRemarks'' \<longrightarrow>
             (snd (supervisor_remarks rt rows body) ! idx) k = (rows ! idx) k) \<and>
          (\<forall>j<length rows. j \<noteq> idx \<longrightarrow>
             snd (supervisor_remarks rt rows body) ! j = rows ! j)"
    using found by (intro exI[of _ idx]) (simp add: res)
qed

theorem supervisor_remarks_patch_witness:
  "truthy (JNum 2) \<and>
   supervisor_remarks exampleRuntime
     [emptyObj(''id'' := JNum 1, ''supervisorRemarks'' := JStr ''old''), emptyObj(''id'' := JNum 2)]
     (emptyObj(''id'' := JNum 7, ''supervisorRemarks'' := JStr ''ok'')) =
     (Inl (NotFound ''Not found''),
      [emptyObj(''id'' := JNum 1, ''supervisorRemarks'' := JStr ''old''), emptyObj(''id'' := JNum 2)]) \<and>
   fst (supervisor_remarks exampleRuntime
     [emptyObj(''id'' := JNum 1, ''supervisorRemarks'' := JStr ''old''), emptyObj(''id'' := JNum 2)]
     (emptyObj(''id'' := JNum 2, ''supervisorRemarks'' := JStr ''ok''))) = Inr () \<and>
   (snd (supervisor_remarks exampleRuntime
     [emptyObj(''id'' := JNum 1, ''supervisorRemarks'' := JStr ''old''), emptyObj(''id'' := JNum 2)]
     (emptyObj(''id'' := JNum 2, ''supervisorRemarks'' := JStr ''ok''))) ! 1) ''supervisorRemarks''
     = JStr ''ok'' \<and>
   (snd (supervisor_remarks exampleRuntime
     [emptyObj(''id'' := JNum 1, ''supervisorRemarks'' := JStr ''old''), emptyObj(''id'' := JNum 2)]
     (emptyObj(''id'' := JNum 2, ''supervisorRemarks'' := JStr ''ok''))) ! 0) ''supervisorRemarks''
     = JStr ''old''"
proof -
  let ?rows = "[emptyObj(''id'' := JNum 1, ''supervisorRemarks'' := JStr ''old''),
                emptyObj(''id'' := JNum 2)]"
  let ?miss = "emptyObj(''id'' := JNum 7, ''supervisorRemarks'' := JStr ''ok'')"
  let ?hit = "emptyObj(''id'' := JNum 2, ''supervisorRemarks'' := JStr ''ok'')"
  have t: "truthy (?miss ''id'')" "truthy (?hit ''id'')" by simp_all
  have none: "\<forall>r\<in>set ?rows. \<not> matchesId exampleRuntime (?miss ''id'') r"
    by (simp add: matchesId_def emptyObj_def)
  have some: "\<exists>r\<in>set ?rows. matchesId exampleRuntime (?hit ''id'') r"
    by (simp add: matchesId_def emptyObj_def)
  have miss: "supervisor_remarks exampleRuntime ?rows ?miss = (Inl (NotFound ''Not found''), ?rows)"
    using supervisor_remarks_patch[where body = ?miss and rt = exampleRuntime and rows = ?rows]
      t(1) none by blast
  from supervisor_remarks_patch[where body = ?hit and rt = exampleRuntime and rows = ?rows]
    t(2) some
  obtain idx where idx: "idx < length ?rows" "matchesId exampleRuntime (?hit ''id'') (?rows ! idx)"
    "fst (supervisor_remarks exampleRuntime ?rows ?hit) = Inr ()"
    "(snd (supervisor_remarks exampleRuntime ?rows ?hit) ! idx) ''supervisorRemarks'' =
       js_or (?hit ''supervisorRemarks'') (JStr '''')"
    "\<forall>j<length ?rows. j \<noteq> idx \<longrightarrow> snd (supervisor_remarks exampleRuntime ?rows ?hit) ! j = ?rows ! j"
    by blast
  have "idx = 0 \<or> idx = 1" using idx(1) by auto
  then have i1: "idx = 1"
    using idx(2) by (auto simp: matchesId_def emptyObj_def)
  have new: "(snd (supervisor_remarks exampleRuntime ?rows ?hit) ! 1) ''supervisorRemarks'' = JStr ''ok''"
    using idx(4) by (simp add: i1 js_or_def)
  have "snd (supervisor_remarks exampleRuntime ?rows ?hit) ! 0 = ?rows ! 0"
    using idx(5) by (simp add: i1)
  then have old: "(snd (supervisor_remarks exampleRuntime ?rows ?hit) ! 0) ''supervisorRemarks'' = JStr ''old''"
    by simp
  show ?thesis using miss idx(3) new old by simp
qed

text \<open>
  The claim as it stands fails for a falsy identifier: the handler has a guard before the
  lookup. With \<open>id = 0\<close>, which matches no stored row, the reply is bad request
  \<open>Missing id\<close>, not not-found.
\<close>

theorem supervisor_remarks_counterexample:
  "\<not> matchesId exampleRuntime (JNum 0) (emptyObj(''id'' := JNum 1)) \<and>
   supervisor_remarks exampleRuntime [emptyObj(''id'' := JNum 1)]
     (emptyObj(''id'' := JNum 0, ''supervisorRemarks'' := JStr ''ok'')) =
     (Inl (BadRequest ''Missing id''), [emptyObj(''id'' := JNum 1)])"
  by (simp add: supervisor_remarks_def matchesId_def emptyObj_def Let_def)

subsection \<open>Registration against the payroll list\<close>

text \<open>
  C8 (as amended). Whenever the payroll list has no record for the request's payroll
  number, or the first record for it has a role other than the requested one,
  registration is rejected and the stored user list is what it was. The message is the
  payroll-mismatch one when the request passes the three checks made before the payroll
  lookup: all four fields present, a role of the enumeration, a user name not yet taken.
\<close>

theorem register_payroll_mismatch:
  assumes "payrollMismatch rt payroll body"
  shows "snd (register rt users payroll body) = users \<and>
         (\<exists>msg. fst (register rt users payroll body) = Inl (Rejected msg)) \<and>
         (fieldsPresent body \<and> validRole (body ''role'') \<and>
          \<not> usernameTaken users (body ''username'') \<longrightarrow>
            fst (register rt users payroll body) = Inl (Rejected ''Payroll number mismatch''))"
  using assms by (simp add: register_def)

theorem register_payroll_mismatch_witness:
  "payrollMismatch exampleRuntime
     [emptyObj(''payrollNumber'' := JStr ''P1'', ''role'' := JStr ''Viewer'')]
     (emptyObj(''username'' := JStr ''bob'', ''password'' := JStr ''pw'',
               ''role'' := JStr ''Agronomist'', ''payrollNumber'' := JStr ''P1'')) \<and>
   register exampleRuntime
     [emptyObj(''id'' := JNum 1, ''username'' := JStr ''amy'')]
     [emptyObj(''payrollNumber'' := JStr ''P1'', ''role'' := JStr ''Viewer'')]
     (emptyObj(''username'' := JStr ''bob'', ''password'' := JStr ''pw'',
               ''role'' := JStr ''Agronomist'', ''payrollNumber'' := JStr ''P1'')) =
     (Inl (Rejected ''Payroll number mismatch''),
      [emptyObj(''id'' := JNum 1, ''username'' := JStr ''amy'')])"
proof -
  let ?users = "[emptyObj(''id'' := JNum 1, ''username'' := JStr ''amy'')]"
  let ?payroll = "[emptyObj(''payrollNumber'' := JStr ''P1'', ''role'' := JStr ''Viewer'')]"
  let ?body = "emptyObj(''username'' := JStr ''bob'', ''password'' := JStr ''pw'',
                        ''role'' := JStr ''Agronomist'', ''payrollNumber'' := JStr ''P1'')"
  have h: "payrollMismatch exampleRuntime ?payroll ?body"
    by (simp add: payrollMismatch_def payrollRecord_def)
  have pre: "fieldsPresent ?body \<and> validRole (?body ''role'') \<and>
             \<not> usernameTaken ?users (?body ''username'')"
    by (simp add: fieldsPresent_def validRole_def ROLES_def usernameTaken_def emptyObj_def)
  from register_payroll_mismatch[OF h, of ?users] pre
  have "snd (register exampleRuntime ?users ?payroll ?body) = ?users"
    and "fst (register exampleRuntime ?users ?payroll ?body) = Inl (Rejected ''Payroll number mismatch'')"
    by blast+
  then have "register exampleRuntime ?users ?payroll ?body =
      (Inl (Rejected ''Payroll number mismatch''), ?users)"
    by (simp add: prod_eq_iff)
  with h show ?thesis by blast
qed

text \<open>
  The claim as it stands fails on the message: the checks before the payroll lookup answer
  first. Here the payroll record has another role than the requested one, and the user
  name is taken: the message is the one for the taken name.
\<close>

theorem register_payroll_mismatch_counterexample:
  "payrollMismatch exampleRuntime
     [emptyObj(''payrollNumber'' := JStr ''P1'', ''role'' := JStr ''Viewer'')]
     (emptyObj(''username'' := JStr ''amy'', ''password'' := JStr ''pw'',
               ''role'' := JStr ''Agronomist'', ''payrollNumber'' := JStr ''P1'')) \<and>
   fst (register exampleRuntime
     [emptyObj(''id'' := JNum 1, ''username'' := JStr ''amy'')]
     [emptyObj(''payrollNumber'' := JStr ''P1'', ''role'' := JStr ''Viewer'')]
     (emptyObj(''username'' := JStr ''amy'', ''password'' := JStr ''pw'',
               ''role'' := JStr ''Agronomist'', ''payrollNumber'' := JStr ''P1''))) =
     Inl (Rejected ''Username already exists'')"
  by (simp add: payrollMismatch_def payrollRecord_def register_def fieldsPresent_def
      validRole_def ROLES_def usernameTaken_def emptyObj_def)

subsection \<open>Farm report append\<close>

lemma maxIdSeeded_numeric:
  assumes "idsWithRoom rt rows n"
  shows "maxIdSeeded rt rows = Fin (Max (insert 0 (set (map (\<lambda>r. num_or0 (idNum rt r)) rows))))"
proof -
  have fin: "list_all isFin (map (idNum rt) rows)"
    using idsWithRoom_fin[OF assms] by (simp add: list_all_iff)
  have "maxIdSeeded rt rows = fold (\<lambda>x m. num_max m x) (map (idNum rt) rows) (Fin 0)"
    by (simp add: maxIdSeeded_def fold_map comp_def)
  also have "\<dots> = Fin (Max (insert 0 (set (map num_or0 (map (idNum rt) rows)))))"
    using fin by (rule fold_num_max_Fin)
  finally show ?thesis by (simp add: comp_def)
qed

lemma maxIdSeeded_safe:
  assumes "idsWithRoom rt rows (Suc n)"
  shows "safeInt (Max (insert 0 (set (map (\<lambda>r. num_or0 (idNum rt r)) rows))))"
proof -
  let ?S = "insert 0 (set (map (\<lambda>r. num_or0 (idNum rt r)) rows))"
  have "Max ?S \<in> ?S" by (intro Max_in) simp_all
  then consider "Max ?S = 0" | r where "r \<in> set rows" "Max ?S = num_or0 (idNum rt r)"
    by auto
  then show ?thesis
  proof cases
    case 1
    then show ?thesis by (simp add: safeInt_def)
  next
    case 2
    from idsWithRoom_bounds[OF assms 2(1)]
    have int: "of_int \<lfloor>Max ?S\<rfloor> = Max ?S" and lo: "- 9007199254740992 \<le> Max ?S"
      and hi: "Max ?S + of_nat (Suc n) \<le> 9007199254740992"
      unfolding 2(2) by blast+
    have "(0::rat) \<le> of_nat n" by simp
    moreover have "(of_nat (Suc n) :: rat) = of_nat n + 1" by simp
    ultimately have "Max ?S < 9007199254740992" using hi by linarith
    with int lo show ?thesis unfolding safeInt_def by blast
  qed
qed

text \<open>
  C7 (as amended). When the request lacks a truthy \<open>weekRange\<close>, \<open>farm\<close> or
  \<open>greenhouse\<close>, the reply is bad request and the stored collection is what it was.
  Otherwise exactly one row is appended and its identifier is sent back. Its
  \<open>pestRate\<close> and \<open>diseaseRate\<close>, as the file holds them, are \<open>Number\<close> of what
  was sent when that is a finite number, 0 when it is \<open>NaN\<close>, and \<open>null\<close> when it is
  infinite (an infinite number is truthy, and is written as \<open>null\<close>). Its
  \<open>createdAt\<close> is the current time.
  When every stored identifier reads as an integer from \<open>-2\<^sup>5\<^sup>3\<close> to
  \<open>2\<^sup>5\<^sup>3 - 1\<close>, its identifier is one plus the greatest of them (the maximum
  starts from 0).
\<close>

theorem farmreport_append_checks_and_coerces:
  "(\<not> truthy (body ''weekRange'') \<or> \<not> truthy (body ''farm'') \<or> \<not> truthy (body ''greenhouse'') \<longrightarrow>
      farmreport_append rt rows body =
        (Inl (BadRequest ''weekRange, farm, greenhouse required''), rows)) \<and>
   (truthy (body ''weekRange'') \<and> truthy (body ''farm'') \<and> truthy (body ''greenhouse'') \<longrightarrow>
      (\<exists>newRow.
         farmreport_append rt rows body = (Inr (newRow ''id''), rows @ [newRow]) \<and>
         written (newRow ''pestRate'') =
           (case toNumber rt (body ''pestRate'') of
              NaN \<Rightarrow> JNum 0 | Fin q \<Rightarrow> JNum q | PosInf \<Rightarrow> Null | NegInf \<Rightarrow> Null) \<and>
         written (newRow ''diseaseRate'') =
           (case toNumber rt (body ''diseaseRate'') of
              NaN \<Rightarrow> JNum 0 | Fin q \<Rightarrow> JNum q | PosInf \<Rightarrow> Null | NegInf \<Rightarrow> Null) \<and>
         newRow ''createdAt'' = JStr (nowISO rt) \<and>
         (idsWithRoom rt rows 1 \<longrightarrow>
            newRow ''id'' =
              JNum (Max (insert 0 (set (map (\<lambda>r. num_or0 (idNum rt r)) rows))) + 1))))"
proof (intro conjI impI)
  assume "\<not> truthy (body ''weekRange'') \<or> \<not> truthy (body ''farm'') \<or> \<not> truthy (body ''greenhouse'')"
  then show "farmreport_append rt rows body =
      (Inl (BadRequest ''weekRange, farm, greenhouse required''), rows)"
    by (auto simp: farmreport_append_def)
next
  assume ok: "truthy (body ''weekRange'') \<and> truthy (body ''farm'') \<and> truthy (body ''greenhouse'')"
  have rate: "written (of_number (orZero n)) =
      (case n of NaN \<Rightarrow> JNum 0 | Fin q \<Rightarrow> JNum q | PosInf \<Rightarrow> Null | NegInf \<Rightarrow> Null)" for n
    by (cases n) simp_all
  obtain newRow where res: "farmreport_append rt rows body = (Inr (newRow ''id''), rows @ [newRow])"
    and pest: "written (newRow ''pestRate'') =
                 written (of_number (orZero (toNumber rt (body ''pestRate''))))"
    and dis: "written (newRow ''diseaseRate'') =
                written (of_number (orZero (toNumber rt (body ''diseaseRate''))))"
    and at: "newRow ''createdAt'' = JStr (nowISO rt)"
    and ident: "newRow ''id'' = of_number (num_inc rt (maxIdSeeded rt rows))"
    using ok by (simp add: farmreport_append_def Let_def)
  have "newRow ''id'' = JNum (Max (insert 0 (set (map (\<lambda>r. num_or0 (idNum rt r)) rows))) + 1)"
    if room: "idsWithRoom rt rows 1"
  proof -
    from room have room': "idsWithRoom rt rows (Suc 0)" by simp
    show ?thesis
      using maxIdSeeded_numeric[OF room] maxIdSeeded_safe[OF room'] by (simp add: ident)
  qed
  with res pest dis at show "\<exists>newRow.
         farmreport_append rt rows body = (Inr (newRow ''id''), rows @ [newRow]) \<and>
         written (newRow ''pestRate'') =
           (case toNumber rt (body ''pestRate'') of
              NaN \<Rightarrow> JNum 0 | Fin q \<Rightarrow> JNum q | PosInf \<Rightarrow> Null | NegInf \<Rightarrow> Null) \<and>
         written (newRow ''diseaseRate'') =
           (case toNumber rt (body ''diseaseRate'') of
              NaN \<Rightarrow> JNum 0 | Fin q \<Rightarrow> JNum q | PosInf \<Rightarrow> Null | NegInf \<Rightarrow> Null) \<and>
         newRow ''createdAt'' = JStr (nowISO rt) \<and>
         (idsWithRoom rt rows 1 \<longrightarrow>
            newRow ''id'' =
              JNum (Max (insert 0 (set (map (\<lambda>r. num_or0 (idNum rt r)) rows))) + 1))"
    by (intro exI[of _ newRow]) (simp add: rate)
qed

theorem farmreport_append_checks_and_coerces_witness:
  "\<not> truthy ((emptyObj(''weekRange'' := JStr ''1-3'', ''farm'' := JStr ''North'')) ''greenhouse'') \<and>
   farmreport_append exampleRuntime [emptyObj(''id'' := JNum 3)]
     (emptyObj(''weekRange'' := JStr ''1-3'', ''farm'' := JStr ''North'')) =
     (Inl (BadRequest ''weekRange, farm, greenhouse required''), [emptyObj(''id'' := JNum 3)]) \<and>
   idsWithRoom exampleRuntime [emptyObj(''id'' := JNum 3)] 1 \<and>
   (\<exists>newRow.
      farmreport_append exampleRuntime [emptyObj(''id'' := JNum 3)]
        (emptyObj(''weekRange'' := JStr ''1-3'', ''farm'' := JStr ''North'',
                  ''greenhouse'' := JStr ''G1'', ''pestRate'' := JStr ''high'',
                  ''diseaseRate'' := JNum (5 / 2))) =
        (Inr (JNum 4), [emptyObj(''id'' := JNum 3)] @ [newRow]) \<and>
      written (newRow ''pestRate'') = JNum 0 \<and>
      written (newRow ''diseaseRate'') = JNum (5 / 2) \<and>
      newRow ''createdAt'' = JStr (nowISO exampleRuntime))"
proof -
  let ?rows = "[emptyObj(''id'' := JNum 3)]"
  let ?bad = "emptyObj(''weekRange'' := JStr ''1-3'', ''farm'' := JStr ''North'')"
  let ?good = "emptyObj(''weekRange'' := JStr ''1-3'', ''farm'' := JStr ''North'',
                  ''greenhouse'' := JStr ''G1'', ''pestRate'' := JStr ''high'',
                  ''diseaseRate'' := JNum (5 / 2))"
  have missing: "\<not> truthy (?bad ''greenhouse'')"
    by (simp add: emptyObj_def)
  have present: "truthy (?good ''weekRange'') \<and> truthy (?good ''farm'') \<and> truthy (?good ''greenhouse'')"
    by simp
  have num: "idsWithRoom exampleRuntime ?rows 1"
    by (simp add: idsWithRoom_def idNum_def js_or_def)
  have bad: "farmreport_append exampleRuntime ?rows ?bad =
      (Inl (BadRequest ''weekRange, farm, greenhouse required''), ?rows)"
    using farmreport_append_checks_and_coerces[where body = ?bad and rt = exampleRuntime and rows = ?rows]
      missing by blast
  from farmreport_append_checks_and_coerces[where body = ?good and rt = exampleRuntime and rows = ?rows]
    present num
  obtain newRow where n:
    "farmreport_append exampleRuntime ?rows ?good = (Inr (newRow ''id''), ?rows @ [newRow])"
    "written (newRow ''pestRate'') =
       (case toNumber exampleRuntime (?good ''pestRate'') of
          NaN \<Rightarrow> JNum 0 | Fin q \<Rightarrow> JNum q | PosInf \<Rightarrow> Null | NegInf \<Rightarrow> Null)"
    "written (newRow ''diseaseRate'') =
       (case toNumber exampleRuntime (?good ''diseaseRate'') of
          NaN \<Rightarrow> JNum 0 | Fin q \<Rightarrow> JNum q | PosInf \<Rightarrow> Null | NegInf \<Rightarrow> Null)"
    "newRow ''createdAt'' = JStr (nowISO exampleRuntime)"
    "newRow ''id'' =
       JNum (Max (insert 0 (set (map (\<lambda>r. num_or0 (idNum exampleRuntime r)) ?rows))) + 1)"
    by blast
  have i: "newRow ''id'' = JNum 4"
    using n(5) by (simp add: idNum_def js_or_def)
  have p: "written (newRow ''pestRate'') = JNum 0"
    using n(2) by (simp add: exampleRuntime_def)
  have d: "written (newRow ''diseaseRate'') = JNum (5 / 2)"
    using n(3) by simp
  from missing bad num n(1) i p d n(4) show ?thesis
    by (intro conjI exI[of _ newRow]) simp_all
qed

text \<open>
  C7 as the specification states it does not hold: it gives the stored rates as
  \<open>Number(x) || 0\<close> in the sense of a number that is 0 for whatever is not numeric, and
  the identifier as one plus the greatest stored one. A rate sent as the string
  \<open>1e999\<close> reads as \<open>Infinity\<close>, which is truthy and is written to the file as
  \<open>null\<close>; and with a stored identifier \<open>2\<^sup>5\<^sup>3\<close> the sum \<open>2\<^sup>5\<^sup>3 + 1\<close>
  is rounded to \<open>2\<^sup>5\<^sup>3\<close>, so the appended row gets the identifier of the stored
  one.
\<close>

theorem farmreport_append_counterexample:
  "fst (farmreport_append exampleRuntime [emptyObj(''id'' := JNum 9007199254740992)]
          (emptyObj(''weekRange'' := JStr ''1-3'', ''farm'' := JStr ''North'',
                    ''greenhouse'' := JStr ''G1'', ''pestRate'' := JStr ''1e999''))) =
     Inr (JNum 9007199254740992) \<and>
   (snd (farmreport_append exampleRuntime [emptyObj(''id'' := JNum 9007199254740992)]
          (emptyObj(''weekRange'' := JStr ''1-3'', ''farm'' := JStr ''North'',
                    ''greenhouse'' := JStr ''G1'', ''pestRate'' := JStr ''1e999''))) ! 1) ''id'' =
     JNum 9007199254740992 \<and>
   written
     ((snd (farmreport_append exampleRuntime [emptyObj(''id'' := JNum 9007199254740992)]
          (emptyObj(''weekRange'' := JStr ''1-3'', ''farm'' := JStr ''North'',
                    ''greenhouse'' := JStr ''G1'', ''pestRate'' := JStr ''1e999''))) ! 1)
        ''pestRate'') = Null \<and>
   length (snd (farmreport_append exampleRuntime [emptyObj(''id'' := JNum 9007199254740992)]
          (emptyObj(''weekRange'' := JStr ''1-3'', ''farm'' := JStr ''North'',
                    ''greenhouse'' := JStr ''G1'', ''pestRate'' := JStr ''1e999'')))) = 2"
  by (simp add: farmreport_append_def Let_def maxIdSeeded_def idNum_def js_or_def safeInt_def
      exampleRuntime_def)

subsection \<open>Farm report search: order of the result\<close>

lemma set_insertBy: "set (insertBy cmp x ys) = insert x (set ys)"
  by (induction ys) auto

lemma set_sortBy: "set (sortBy cmp xs) = set xs"
  by (induction xs) (simp_all add: sortBy_def set_insertBy)

lemma compareRows_pos:
  assumes "sortable rt a" "sortable rt b"
  shows "num_lt (Fin 0) (compareRows rt a b) \<longleftrightarrow> \<not> newerFirst rt a b"
proof -
  have fin: "isFin n \<Longrightarrow> \<exists>q. n = Fin q" for n
    by (cases n) simp_all
  from assms fin obtain ta tb ia ib where
    "createdTime rt a = Fin ta" "createdTime rt b = Fin tb" "idNum rt a = Fin ia" "idNum rt b = Fin ib"
    unfolding sortable_def by metis
  then show ?thesis
    by (auto simp: compareRows_def newerFirst_def Let_def)
qed

lemma newerFirst_trans: "newerFirst rt a b \<Longrightarrow> newerFirst rt b c \<Longrightarrow> newerFirst rt a c"
  by (auto simp: newerFirst_def)

lemma newerFirst_total: "newerFirst rt a b \<or> newerFirst rt b a"
  by (auto simp: newerFirst_def)

lemma sorted_insertBy:
  assumes "sortable rt x" "\<forall>y\<in>set ys. sortable rt y" "sorted_wrt (newerFirst rt) ys"
  shows "sorted_wrt (newerFirst rt) (insertBy (compareRows rt) x ys)"
  using assms
proof (induction ys)
  case Nil
  then show ?case by simp
next
  case (Cons y ys)
  show ?case
  proof (cases "num_lt (Fin 0) (compareRows rt x y)")
    case True
    then have yx: "newerFirst rt y x"
      using compareRows_pos[of rt x y] Cons.prems newerFirst_total[of rt x y] by auto
    have "sorted_wrt (newerFirst rt) (insertBy (compareRows rt) x ys)"
      using Cons by simp
    moreover have "\<forall>z\<in>set (insertBy (compareRows rt) x ys). newerFirst rt y z"
      using yx Cons.prems(3) by (auto simp: set_insertBy)
    ultimately show ?thesis using True by simp
  next
    case False
    then have xy: "newerFirst rt x y"
      using compareRows_pos[of rt x y] Cons.prems by auto
    have "\<forall>z\<in>set ys. newerFirst rt x z"
      using xy Cons.prems(3) newerFirst_trans by auto
    then show ?thesis using False xy Cons.prems(3) by simp
  qed
qed

lemma sorted_sortBy:
  "\<forall>x\<in>set xs. sortable rt x \<Longrightarrow> sorted_wrt (newerFirst rt) (sortBy (compareRows rt) xs)"
proof (induction xs)
  case Nil
  then show ?case by (simp add: sortBy_def)
next
  case (Cons x xs)
  have "sorted_wrt (newerFirst rt) (sortBy (compareRows rt) xs)"
    using Cons by simp
  moreover have "\<forall>y\<in>set (sortBy (compareRows rt) xs). sortable rt y"
    using Cons.prems by (simp add: set_sortBy)
  ultimately have "sorted_wrt (newerFirst rt) (insertBy (compareRows rt) x (sortBy (compareRows rt) xs))"
    using Cons.prems by (intro sorted_insertBy) simp_all
  then show ?case by (simp add: sortBy_def)
qed

text \<open>
  C9. When every stored row is sortable, the search result is in descending order of
  creation time stamp (an absent one reads as 0), and rows with equal time stamps are in
  descending order of identifier: of two rows of the result, the earlier one has the
  greater time stamp, or the same time stamp and an identifier at least as great.
\<close>

theorem search_sorted_newest_first:
  assumes "list_all (sortable rt) rows"
  shows "\<forall>i j. i < j \<and> j < length (filterFarmRows rt query rows) \<longrightarrow>
           num_or0 (createdTime rt (filterFarmRows rt query rows ! i)) >
             num_or0 (createdTime rt (filterFarmRows rt query rows ! j)) \<or>
           (num_or0 (createdTime rt (filterFarmRows rt query rows ! i)) =
              num_or0 (createdTime rt (filterFarmRows rt query rows ! j)) \<and>
            num_or0 (idNum rt (filterFarmRows rt query rows ! i)) \<ge>
              num_or0 (idNum rt (filterFarmRows rt query rows ! j)))"
proof -
  have "sorted_wrt (newerFirst rt) (filterFarmRows rt query rows)"
    unfolding filterFarmRows_def using assms
    by (intro sorted_sortBy) (simp add: list_all_iff)
  then show ?thesis
    by (simp add: sorted_wrt_iff_nth_less newerFirst_def)
qed

theorem search_sorted_newest_first_witness:
  "list_all (sortable exampleRuntime)
     [emptyObj(''id'' := JNum 1, ''createdAt'' := JNum 100),
      emptyObj(''id'' := JNum 2, ''createdAt'' := JNum 300),
      emptyObj(''id'' := JNum 3),
      emptyObj(''id'' := JNum 4)] \<and>
   filterFarmRows exampleRuntime emptyObj
     [emptyObj(''id'' := JNum 1, ''createdAt'' := JNum 100),
      emptyObj(''id'' := JNum 2, ''createdAt'' := JNum 300),
      emptyObj(''id'' := JNum 3),
      emptyObj(''id'' := JNum 4)] =
     [emptyObj(''id'' := JNum 2, ''createdAt'' := JNum 300),
      emptyObj(''id'' := JNum 1, ''createdAt'' := JNum 100),
      emptyObj(''id'' := JNum 4),
      emptyObj(''id'' := JNum 3)] \<and>
   num_or0 (createdTime exampleRuntime (emptyObj(''id'' := JNum 4))) =
     num_or0 (createdTime exampleRuntime (emptyObj(''id'' := JNum 3))) \<and>
   num_or0 (idNum exampleRuntime (emptyObj(''id'' := JNum 4))) \<ge>
     num_or0 (idNum exampleRuntime (emptyObj(''id'' := JNum 3)))"
proof -
  let ?rows = "[emptyObj(''id'' := JNum 1, ''createdAt'' := JNum 100),
      emptyObj(''id'' := JNum 2, ''createdAt'' := JNum 300),
      emptyObj(''id'' := JNum 3),
      emptyObj(''id'' := JNum 4)]"
  have h: "list_all (sortable exampleRuntime) ?rows"
    by (simp add: sortable_def createdTime_def idNum_def js_or_def exampleRuntime_def emptyObj_def)
  have res: "filterFarmRows exampleRuntime emptyObj ?rows =
     [emptyObj(''id'' := JNum 2, ''createdAt'' := JNum 300),
      emptyObj(''id'' := JNum 1, ''createdAt'' := JNum 100),
      emptyObj(''id'' := JNum 4),
      emptyObj(''id'' := JNum 3)]"
    by (simp add: filterFarmRows_def rowPasses_def weekBound_def given_def
        otherFiltersPass_def fieldPasses_def ratePasses_def rateBound_def
        sortBy_def compareRows_def createdTime_def idNum_def js_or_def
        exampleRuntime_def emptyObj_def Let_def)
  have "(2::nat) < 3 \<and> 3 < length (filterFarmRows exampleRuntime emptyObj ?rows)"
    by (simp add: res)
  with search_sorted_newest_first[OF h, of emptyObj]
  have "num_or0 (createdTime exampleRuntime (filterFarmRows exampleRuntime emptyObj ?rows ! 2)) >
          num_or0 (createdTime exampleRuntime (filterFarmRows exampleRuntime emptyObj ?rows ! 3)) \<or>
        (num_or0 (createdTime exampleRuntime (filterFarmRows exampleRuntime emptyObj ?rows ! 2)) =
           num_or0 (createdTime exampleRuntime (filterFarmRows exampleRuntime emptyObj ?rows ! 3)) \<and>
         num_or0 (idNum exampleRuntime (filterFarmRows exampleRuntime emptyObj ?rows ! 2)) \<ge>
           num_or0 (idNum exampleRuntime (filterFarmRows exampleRuntime emptyObj ?rows ! 3)))"
    by blast
  from this[unfolded res]
  have "num_or0 (createdTime exampleRuntime (emptyObj(''id'' := JNum 4))) =
       num_or0 (createdTime exampleRuntime (emptyObj(''id'' := JNum 3))) \<and>
     num_or0 (idNum exampleRuntime (emptyObj(''id'' := JNum 4))) \<ge>
       num_or0 (idNum exampleRuntime (emptyObj(''id'' := JNum 3)))"
    by (simp add: createdTime_def emptyObj_def)
  with h res show ?thesis by blast
qed

subsection \<open>Farm report search: the week filter\<close>

lemma weekPasses_contained:
  "weekPasses (Some (Fin a)) (Some (Fin b)) (Fin s, Fin e) \<longleftrightarrow> a \<le> s \<and> e \<le> b"
  by (auto simp: weekPasses_def num_gt_def Let_def)

text \<open>
  C1 (as amended). With both week bounds given and parsing to numbers \<open>a\<close> and \<open>b\<close>,
  a stored row whose week range parses to \<open>[s, e]\<close> is in the result exactly when its
  range lies inside the bounds, \<open>a \<le> s\<close> and \<open>e \<le> b\<close>, and it passes the other
  filters of the query. Overlapping the bounds is not enough.
\<close>

theorem week_filter_is_containment:
  assumes "given (query ''weekFrom'')" "parseInt rt (toString rt (query ''weekFrom'')) = Fin a"
    and "given (query ''weekTo'')" "parseInt rt (toString rt (query ''weekTo'')) = Fin b"
    and "parseWeekRange rt (r ''weekRange'') = (Fin s, Fin e)"
  shows "r \<in> set (filterFarmRows rt query rows) \<longleftrightarrow>
           r \<in> set rows \<and> a \<le> s \<and> e \<le> b \<and> otherFiltersPass rt query r"
  using assms
  by (auto simp: filterFarmRows_def set_sortBy rowPasses_def weekBound_def
      weekPasses_contained Let_def)

theorem week_filter_is_containment_witness:
  "given (JStr ''2'') \<and> parseInt exampleRuntime ''2'' = Fin 2 \<and> given (JStr ''5'') \<and> parseInt exampleRuntime ''5'' = Fin 5 \<and>
   parseWeekRange exampleRuntime (JStr ''1-3'') = (Fin 1, Fin 3) \<and>
   parseWeekRange exampleRuntime (JStr ''4-4'') = (Fin 4, Fin 4) \<and>
   parseWeekRange exampleRuntime (JStr ''6-8'') = (Fin 6, Fin 8) \<and>
   emptyObj(''id'' := JNum 1, ''weekRange'' := JStr ''1-3'') \<notin>
     set (filterFarmRows exampleRuntime (emptyObj(''weekFrom'' := JStr ''2'', ''weekTo'' := JStr ''5''))
       [emptyObj(''id'' := JNum 1, ''weekRange'' := JStr ''1-3''),
        emptyObj(''id'' := JNum 2, ''weekRange'' := JStr ''4-4''),
        emptyObj(''id'' := JNum 3, ''weekRange'' := JStr ''6-8'')]) \<and>
   emptyObj(''id'' := JNum 2, ''weekRange'' := JStr ''4-4'') \<in>
     set (filterFarmRows exampleRuntime (emptyObj(''weekFrom'' := JStr ''2'', ''weekTo'' := JStr ''5''))
       [emptyObj(''id'' := JNum 1, ''weekRange'' := JStr ''1-3''),
        emptyObj(''id'' := JNum 2, ''weekRange'' := JStr ''4-4''),
        emptyObj(''id'' := JNum 3, ''weekRange'' := JStr ''6-8'')]) \<and>
   emptyObj(''id'' := JNum 3, ''weekRange'' := JStr ''6-8'') \<notin>
     set (filterFarmRows exampleRuntime (emptyObj(''weekFrom'' := JStr ''2'', ''weekTo'' := JStr ''5''))
       [emptyObj(''id'' := JNum 1, ''weekRange'' := JStr ''1-3''),
        emptyObj(''id'' := JNum 2, ''weekRange'' := JStr ''4-4''),
        emptyObj(''id'' := JNum 3, ''weekRange'' := JStr ''6-8'')])"
proof -
  let ?q = "emptyObj(''weekFrom'' := JStr ''2'', ''weekTo'' := JStr ''5'')"
  let ?r1 = "emptyObj(''id'' := JNum 1, ''weekRange'' := JStr ''1-3'')"
  let ?r2 = "emptyObj(''id'' := JNum 2, ''weekRange'' := JStr ''4-4'')"
  let ?r3 = "emptyObj(''id'' := JNum 3, ''weekRange'' := JStr ''6-8'')"
  have g: "given (JStr ''2'')" "given (JStr ''5'')"
    by (simp_all add: given_def)
  have p: "parseInt exampleRuntime ''2'' = Fin 2" "parseInt exampleRuntime ''5'' = Fin 5"
    by (simp_all add: parseInt_def isWhite_def isDigit_def digitsVal_def Let_def)
  have w1: "parseWeekRange exampleRuntime (JStr ''1-3'') = (Fin 1, Fin 3)"
    by (simp add: parseWeekRange_def strOrEmpty_def js_or_def trim_def isWhite_def
        parseInt_def isDigit_def digitsVal_def Let_def)
  have w2: "parseWeekRange exampleRuntime (JStr ''4-4'') = (Fin 4, Fin 4)"
    by (simp add: parseWeekRange_def strOrEmpty_def js_or_def trim_def isWhite_def
        parseInt_def isDigit_def digitsVal_def Let_def)
  have w3: "parseWeekRange exampleRuntime (JStr ''6-8'') = (Fin 6, Fin 8)"
    by (simp add: parseWeekRange_def strOrEmpty_def js_or_def trim_def isWhite_def
        parseInt_def isDigit_def digitsVal_def Let_def)
  have others: "otherFiltersPass exampleRuntime ?q ?r2"
    by (simp add: otherFiltersPass_def fieldPasses_def ratePasses_def rateBound_def
        given_def emptyObj_def Let_def)
  have "?r1 \<in> set (filterFarmRows exampleRuntime ?q [?r1, ?r2, ?r3]) \<longleftrightarrow>
        ?r1 \<in> set [?r1, ?r2, ?r3] \<and> (2::rat) \<le> 1 \<and> (3::rat) \<le> 5 \<and>
        otherFiltersPass exampleRuntime ?q ?r1"
    using g p w1
    by (intro week_filter_is_containment[where rt = exampleRuntime and query = ?q and r = ?r1])
      simp_all
  then have out1: "?r1 \<notin> set (filterFarmRows exampleRuntime ?q [?r1, ?r2, ?r3])"
    by simp
  have "?r2 \<in> set (filterFarmRows exampleRuntime ?q [?r1, ?r2, ?r3]) \<longleftrightarrow>
        ?r2 \<in> set [?r1, ?r2, ?r3] \<and> (2::rat) \<le> 4 \<and> (4::rat) \<le> 5 \<and>
        otherFiltersPass exampleRuntime ?q ?r2"
    using g p w2
    by (intro week_filter_is_containment[where rt = exampleRuntime and query = ?q and r = ?r2])
      simp_all
  then have in2: "?r2 \<in> set (filterFarmRows exampleRuntime ?q [?r1, ?r2, ?r3])"
    using others by simp
  have "?r3 \<in> set (filterFarmRows exampleRuntime ?q [?r1, ?r2, ?r3]) \<longleftrightarrow>
        ?r3 \<in> set [?r1, ?r2, ?r3] \<and> (2::rat) \<le> 6 \<and> (8::rat) \<le> 5 \<and>
        otherFiltersPass exampleRuntime ?q ?r3"
    using g p w3
    by (intro week_filter_is_containment[where rt = exampleRuntime and query = ?q and r = ?r3])
      simp_all
  then have out3: "?r3 \<notin> set (filterFarmRows exampleRuntime ?q [?r1, ?r2, ?r3])"
    by simp
  from g p w1 w2 w3 out1 in2 out3 show ?thesis by blast
qed

text \<open>
  The claim as it stands fails on its own example. With \<open>weekFrom = 2\<close> and
  \<open>weekTo = 5\<close>, the rows with week ranges 1-3, 4-4 and 6-8 give the second row only:
  the range 1-3 overlaps the bounds (\<open>1 \<le> 5\<close> and \<open>2 \<le> 3\<close>) but starts before
  them, and the filter drops it.
\<close>

theorem week_filter_counterexample:
  "parseWeekRange exampleRuntime (JStr ''1-3'') = (Fin 1, Fin 3) \<and>
   filterFarmRows exampleRuntime (emptyObj(''weekFrom'' := JStr ''2'', ''weekTo'' := JStr ''5''))
     [emptyObj(''id'' := JNum 1, ''weekRange'' := JStr ''1-3''),
      emptyObj(''id'' := JNum 2, ''weekRange'' := JStr ''4-4''),
      emptyObj(''id'' := JNum 3, ''weekRange'' := JStr ''6-8'')] =
     [emptyObj(''id'' := JNum 2, ''weekRange'' := JStr ''4-4'')]"
  by (simp add: filterFarmRows_def rowPasses_def weekBound_def given_def parseWeekRange_def
      strOrEmpty_def js_or_def trim_def isWhite_def parseInt_def isDigit_def digitsVal_def
      weekPasses_def num_gt_def otherFiltersPass_def fieldPasses_def ratePasses_def rateBound_def
      sortBy_def emptyObj_def Let_def)

subsection \<open>Bulk save\<close>

lemma agro_save_snoc:
  "agro_save rt existing (pre @ [row]) = save_row rt row (agro_save rt existing pre)"
  by (simp add: agro_save_def)

lemma fold_save_counts:
  "fold (save_row rt) batch (S, a, d) = (S', a', d') \<Longrightarrow>
   length S' = length S + (a' - a) \<and> a \<le> a' \<and> a' + d' = a + d + length batch \<and>
   take (length S) S' = S"
proof (induction batch arbitrary: S a d)
  case Nil
  then show ?case by simp
next
  case (Cons row batch)
  obtain S1 a1 d1 where s1: "save_row rt row (S, a, d) = (S1, a1, d1)"
    by (cases "save_row rt row (S, a, d)") auto
  then have step: "(S1 = S \<and> a1 = a \<and> d1 = Suc d) \<or> (\<exists>x. S1 = S @ [x] \<and> a1 = Suc a \<and> d1 = d)"
    by (auto simp: save_row_def Let_def split: if_splits)
  from Cons.prems s1 have "fold (save_row rt) batch (S1, a1, d1) = (S', a', d')" by simp
  from Cons.IH[OF this] have ih: "length S' = length S1 + (a' - a1)" "a1 \<le> a'"
    "a' + d' = a1 + d1 + length batch" "take (length S1) S' = S1" by simp_all
  from step show ?case
  proof
    assume "S1 = S \<and> a1 = a \<and> d1 = Suc d"
    with ih show ?thesis by simp
  next
    assume "\<exists>x. S1 = S @ [x] \<and> a1 = Suc a \<and> d1 = d"
    then obtain x where x: "S1 = S @ [x]" "a1 = Suc a" "d1 = d" by blast
    have "take (length S1) S' @ drop (length S1) S' = S'" by (rule append_take_drop_id)
    then have "S1 @ drop (length S1) S' = S'" by (simp only: ih(4))
    then have "S @ x # drop (length S1) S' = S'" by (simp add: x(1))
    then obtain rest where "S' = S @ x # rest" by metis
    then have tk: "take (length S) S' = S" by simp
    have "length S' = length S + (a' - a)" "a \<le> a'" "a' + d' = a + d + length (row # batch)"
      using ih(1,2,3) x by simp_all
    with tk show ?thesis by blast
  qed
qed

text \<open>
  C4. The stored set is the collection the loop has built when a row comes up: the rows
  of the file and the rows appended earlier in the same request. Let \<open>stored\<close> be that
  collection after the rows \<open>pre\<close>. The next row (with its own identifier, or the
  computed one when it has none) is appended exactly when no row of \<open>stored\<close> has its
  identifier and no row of \<open>stored\<close> agrees with it on farm, gh, area, crop and time
  together; otherwise it is counted as a duplicate and \<open>stored\<close> stays as it is. For a
  whole batch, the collection grows by exactly the rows counted as added, every row of the
  batch is counted once, and the rows stored before are kept.
\<close>

theorem save_appends_unless_duplicate:
  "(case agro_save rt existing pre of
      (stored, added, duplicates) \<Rightarrow>
        agro_save rt existing (pre @ [row]) =
          (if (\<forall>r\<in>set stored. \<not> sameIdent r (saveIdent rt stored row)) \<and>
              (\<forall>r\<in>set stored. \<not> sameKey r row)
           then (stored @ [withIdent row (saveIdent rt stored row)], added + 1, duplicates)
           else (stored, added, duplicates + 1))) \<and>
   (case agro_save rt existing batch of
      (stored, added, duplicates) \<Rightarrow>
        length stored = length existing + added \<and>
        added + duplicates = length batch \<and>
        take (length existing) stored = existing)"
proof
  show "case agro_save rt existing pre of
      (stored, added, duplicates) \<Rightarrow>
        agro_save rt existing (pre @ [row]) =
          (if (\<forall>r\<in>set stored. \<not> sameIdent r (saveIdent rt stored row)) \<and>
              (\<forall>r\<in>set stored. \<not> sameKey r row)
           then (stored @ [withIdent row (saveIdent rt stored row)], added + 1, duplicates)
           else (stored, added, duplicates + 1))"
    by (auto simp: agro_save_snoc save_row_def Let_def list_ex_iff split: prod.splits)
next
  obtain S a d where r: "agro_save rt existing batch = (S, a, d)"
    by (cases "agro_save rt existing batch") auto
  then have "fold (save_row rt) batch (existing, 0, 0) = (S, a, d)"
    by (simp add: agro_save_def)
  from fold_save_counts[OF this] show "case agro_save rt existing batch of
      (stored, added, duplicates) \<Rightarrow>
        length stored = length existing + added \<and>
        added + duplicates = length batch \<and>
        take (length existing) stored = existing"
    by (simp add: r)
qed


theorem save_appends_unless_duplicate_witness:
  "agro_save exampleRuntime [emptyObj(''id'' := JNum 1, ''farm'' := JStr ''A'')]
     ([emptyObj(''farm'' := JStr ''B'')]) =
     ([emptyObj(''id'' := JNum 1, ''farm'' := JStr ''A'')] @
        [emptyObj(''farm'' := JStr ''B'', ''id'' := JNum 2)], 1, 0) \<and>
   agro_save exampleRuntime [emptyObj(''id'' := JNum 1, ''farm'' := JStr ''A'')]
     ([emptyObj(''farm'' := JStr ''A'')]) =
     ([emptyObj(''id'' := JNum 1, ''farm'' := JStr ''A'')], 0, 1) \<and>
   agro_save exampleRuntime [emptyObj(''id'' := JNum 1, ''farm'' := JStr ''A'')]
     ([emptyObj(''id'' := JNum 1, ''farm'' := JStr ''C'')]) =
     ([emptyObj(''id'' := JNum 1, ''farm'' := JStr ''A'')], 0, 1)"
proof -
  let ?ex = "[emptyObj(''id'' := JNum 1, ''farm'' := JStr ''A'')]"
  have start: "agro_save exampleRuntime ?ex [] = (?ex, 0, 0)"
    by (simp add: agro_save_def)
  have a: "agro_save exampleRuntime ?ex ([] @ [emptyObj(''farm'' := JStr ''B'')]) =
     (?ex @ [emptyObj(''farm'' := JStr ''B'', ''id'' := JNum 2)], 1, 0)"
    using save_appends_unless_duplicate[where rt = exampleRuntime and existing = ?ex and pre = "[]"
        and row = "emptyObj(''farm'' := JStr ''B'')" and batch = "[]"]
    unfolding start
    by (simp add: saveIdent_def sameKey_def nextIdAdd_def idNum_def js_or_def emptyObj_def
        safeInt_def)
  have b: "agro_save exampleRuntime ?ex ([] @ [emptyObj(''farm'' := JStr ''A'')]) = (?ex, 0, 1)"
    using save_appends_unless_duplicate[where rt = exampleRuntime and existing = ?ex and pre = "[]"
        and row = "emptyObj(''farm'' := JStr ''A'')" and batch = "[]"]
    unfolding start
    by (simp add: saveIdent_def sameKey_def nextIdAdd_def idNum_def js_or_def emptyObj_def
        safeInt_def)
  have c: "agro_save exampleRuntime ?ex ([] @ [emptyObj(''id'' := JNum 1, ''farm'' := JStr ''C'')]) = (?ex, 0, 1)"
    using save_appends_unless_duplicate[where rt = exampleRuntime and existing = ?ex and pre = "[]"
        and row = "emptyObj(''id'' := JNum 1, ''farm'' := JStr ''C'')" and batch = "[]"]
    unfolding start
    by (simp add: saveIdent_def sameKey_def emptyObj_def)
  from a b c show ?thesis by simp
qed

subsection \<open>The counter and the stored identifiers\<close>

lemma fold_num_max_NaN: "fold (\<lambda>r m. num_max m (f r)) rows NaN = NaN"
  by (induction rows) simp_all

lemma fold_num_max_PosInf:
  "fold (\<lambda>r m. num_max m (f r)) rows PosInf = PosInf \<or>
   fold (\<lambda>r m. num_max m (f r)) rows PosInf = NaN"
proof (induction rows)
  case Nil
  then show ?case by simp
next
  case (Cons r rows)
  then show ?case by (cases "f r") (simp_all add: fold_num_max_NaN)
qed

lemma fold_num_max_bound:
  "fold (\<lambda>r m. num_max m (idNum rt r)) rows (Fin a) = Fin m \<Longrightarrow>
   a \<le> m \<and> list_all (\<lambda>r. case r ''id'' of JNum q \<Rightarrow> q \<le> m | _ \<Rightarrow> True) rows"
proof (induction rows arbitrary: a)
  case Nil
  then show ?case by simp
next
  case (Cons r rows)
  show ?case
  proof (cases "idNum rt r")
    case NaN
    with Cons.prems show ?thesis by (simp add: fold_num_max_NaN)
  next
    case PosInf
    with Cons.prems fold_num_max_PosInf[of "idNum rt" rows] show ?thesis by auto
  next
    case NegInf
    with Cons.prems have f: "fold (\<lambda>r m. num_max m (idNum rt r)) rows (Fin a) = Fin m"
      by simp
    from Cons.IH[OF f] have ih: "a \<le> m"
      "list_all (\<lambda>r. case r ''id'' of JNum q \<Rightarrow> q \<le> m | _ \<Rightarrow> True) rows" by simp_all
    have "case r ''id'' of JNum q \<Rightarrow> q \<le> m | _ \<Rightarrow> True"
    proof (cases "r ''id''")
      case (JNum q)
      then have "idNum rt r = Fin q" by (simp add: idNum_JNum)
      with NegInf show ?thesis by simp
    qed simp_all
    with ih show ?thesis by simp
  next
    case (Fin b)
    with Cons.prems have f: "fold (\<lambda>r m. num_max m (idNum rt r)) rows (Fin (max a b)) = Fin m"
      by simp
    from Cons.IH[OF f] have ih: "max a b \<le> m"
      "list_all (\<lambda>r. case r ''id'' of JNum q \<Rightarrow> q \<le> m | _ \<Rightarrow> True) rows" by simp_all
    have "case r ''id'' of JNum q \<Rightarrow> q \<le> m | _ \<Rightarrow> True"
    proof (cases "r ''id''")
      case (JNum q)
      then have "idNum rt r = Fin q" by (simp add: idNum_JNum)
      with Fin ih(1) JNum show ?thesis by simp
    qed simp_all
    with ih show ?thesis by simp
  qed
qed

lemma idsBelow_seeded: "idsBelow (maxIdSeeded rt rows) rows"
proof (cases "maxIdSeeded rt rows")
  case (Fin m)
  then show ?thesis
    using fold_num_max_bound[of rt rows 0 m] by (simp add: idsBelow_def maxIdSeeded_def)
qed (simp_all add: idsBelow_def)

lemma counterSafe_Fin:
  assumes "counterSafe (Fin m) (Suc n)"
  shows "safeInt m \<and> counterSafe (Fin (m + 1)) n"
proof -
  from assms have int: "of_int \<lfloor>m\<rfloor> = m" and lo: "- 9007199254740992 \<le> m"
    and hi: "m + of_nat (Suc n) \<le> 9007199254740992"
    unfolding counterSafe_def by simp_all
  have "(0::rat) \<le> of_nat n" by simp
  with hi have lt: "m < 9007199254740992" by simp
  from int obtain z :: int where z: "m = of_int z" by metis
  have int': "of_int \<lfloor>m + 1\<rfloor> = m + 1" unfolding z by simp
  have lo': "- 9007199254740992 \<le> m + 1" using lo by simp
  have hi': "m + 1 + of_nat n \<le> 9007199254740992" using hi by simp
  have "safeInt m" unfolding safeInt_def using int lo lt by blast
  moreover have "counterSafe (Fin (m + 1)) n"
    unfolding counterSafe_def number.case using int' lo' hi' by blast
  ultimately show ?thesis by blast
qed

lemma counterSafe_inc: "counterSafe maxId (Suc n) \<Longrightarrow> counterSafe (num_inc rt maxId) n"
proof (cases maxId)
  case (Fin m)
  assume "counterSafe maxId (Suc n)"
  with Fin counterSafe_Fin[of m n] show ?thesis by simp
qed (simp_all add: counterSafe_def)

lemma idsBelow_inc:
  "idsBelow maxId rows \<Longrightarrow> counterSafe maxId (Suc n) \<Longrightarrow> idsBelow (num_inc rt maxId) rows"
proof (cases maxId)
  case (Fin m)
  assume below: "idsBelow maxId rows" and safe: "counterSafe maxId (Suc n)"
  from safe Fin counterSafe_Fin[of m n] have inc: "num_inc rt maxId = Fin (m + 1)" by simp
  have "(case r ''id'' of JNum q \<Rightarrow> q \<le> m + 1 | _ \<Rightarrow> True)" if "r \<in> set rows" for r
  proof -
    from below Fin that have "case r ''id'' of JNum q \<Rightarrow> q \<le> m | _ \<Rightarrow> True"
      by (simp add: idsBelow_def list_all_iff)
    then show ?thesis by (cases "r ''id''") simp_all
  qed
  then show ?thesis by (simp add: inc idsBelow_def list_all_iff)
qed (simp_all add: idsBelow_def)

lemma idsBelow_fresh:
  assumes "idsBelow maxId rows" "counterSafe maxId (Suc n)" "r \<in> set rows"
  shows "\<not> strict_eq_num (r ''id'') (num_inc rt maxId)"
proof (cases maxId)
  case (Fin m)
  from assms(2) Fin counterSafe_Fin[of m n] have inc: "num_inc rt maxId = Fin (m + 1)" by simp
  from assms(1,3) Fin have "case r ''id'' of JNum q \<Rightarrow> q \<le> m | _ \<Rightarrow> True"
    by (simp add: idsBelow_def list_all_iff)
  then show ?thesis unfolding inc by (cases "r ''id''") simp_all
next
  case NaN
  then show ?thesis by simp
next
  case PosInf
  with assms(2) show ?thesis by (simp add: counterSafe_def)
next
  case NegInf
  with assms(2) show ?thesis by (simp add: counterSafe_def)
qed

lemma unnumbered_Cons:
  "unnumbered (row # rows) =
     (if truthy (row ''id'') then unnumbered rows else Suc (unnumbered rows))"
  by (simp add: unnumbered_def)

lemma counterSafe_next:
  "counterSafe maxId (unnumbered (row # batch)) \<Longrightarrow>
   counterSafe (nextCounter rt maxId row) (unnumbered batch)"
  by (simp add: unnumbered_Cons nextCounter_def counterSafe_inc split: if_splits)

lemma idsBelow_next:
  "idsBelow maxId rows \<Longrightarrow> counterSafe maxId (unnumbered (row # batch)) \<Longrightarrow>
   idsBelow (nextCounter rt maxId row) rows"
  by (simp add: unnumbered_Cons nextCounter_def idsBelow_inc split: if_splits)

lemma assigned_fresh:
  assumes "idsBelow maxId rows" "counterSafe maxId (unnumbered (row # batch))"
    "\<not> truthy (row ''id'')" "r \<in> set rows"
  shows "\<not> sameIdent r (assignIdent rt maxId row)"
proof -
  from assms(2,3) have "counterSafe maxId (Suc (unnumbered batch))"
    by (simp add: unnumbered_Cons)
  from idsBelow_fresh[OF assms(1) this assms(4)] assms(3) show ?thesis
    by (simp add: assignIdent_def)
qed

lemma strict_eq_eq: "strict_eq a b \<Longrightarrow> a = b"
  by (cases a; cases b) simp_all

lemma sameIdent_identVal: "sameIdent e ident \<Longrightarrow> identVal ident = e ''id''"
proof (cases ident)
  case (Given v)
  assume "sameIdent e ident"
  with Given strict_eq_eq[of "e ''id''" v] show ?thesis by auto
next
  case (Assigned n)
  assume "sameIdent e ident"
  with Assigned show ?thesis by (cases "e ''id''"; cases n) simp_all
qed

subsection \<open>Bulk set\<close>

lemma sameIdent_withIdent:
  "sameIdent r ident \<Longrightarrow> ident = Given (row ''id'') \<or> (\<exists>n. ident = Assigned n) \<Longrightarrow>
   withIdent row ident ''id'' = r ''id''"
  using sameIdent_identVal[of r ident] by (cases ident) auto

lemma assignIdent_cases:
  "assignIdent rt maxId row = Given (row ''id'') \<or> (\<exists>n. assignIdent rt maxId row = Assigned n)"
  by (simp add: assignIdent_def)

lemma snd_bulk_row: "snd (bulk_row rt row st) = nextCounter rt (snd st) row"
  by (cases st) (simp add: bulk_row_def Let_def)

lemma bulk_row_merged_id:
  assumes "findIndex (\<lambda>r. sameIdent r (assignIdent rt maxId row)) merged = Some idx"
  shows "((spread (merged ! idx) (withIdent row (assignIdent rt maxId row)))
            (''supervisorRemarks'' := v)) ''id''
           = (merged ! idx) ''id''"
proof -
  have "sameIdent (merged ! idx) (assignIdent rt maxId row)"
    using findIndex_Some[OF assms] by simp
  then have "withIdent row (assignIdent rt maxId row) ''id'' = (merged ! idx) ''id''"
    using assignIdent_cases[of rt maxId row] by (intro sameIdent_withIdent) simp_all
  then show ?thesis by (simp add: spread_def)
qed

lemma bulk_row_keepsIds:
  assumes "keepsIds existing st" "counterSafe (snd st) (unnumbered (row # batch))"
  shows "keepsIds existing (bulk_row rt row st)"
proof -
  obtain merged maxId where st: "st = (merged, maxId)" by (cases st)
  from assms st have len: "length existing \<le> length merged"
    and ids: "\<forall>i<length existing. (merged ! i) ''id'' = (existing ! i) ''id''"
    and below: "idsBelow maxId existing"
    and safe: "counterSafe maxId (unnumbered (row # batch))"
    by (simp_all add: keepsIds_def)
  have below': "idsBelow (nextCounter rt maxId row) existing"
    using below safe by (rule idsBelow_next)
  show ?thesis
  proof (cases "findIndex (\<lambda>r. sameIdent r (assignIdent rt maxId row)) merged")
    case None
    then show ?thesis
      using len ids below' by (simp add: st bulk_row_def Let_def keepsIds_def nth_append)
  next
    case (Some idx)
    have "idx < length merged" using findIndex_Some[OF Some] by simp
    then show ?thesis
      using len ids below' bulk_row_merged_id[OF Some]
      by (simp add: st bulk_row_def Let_def keepsIds_def Some nth_list_update)
  qed
qed

lemma bulk_row_keeps_remark:
  assumes inv: "keepsIds existing (merged, maxId)"
    and safe: "counterSafe maxId (unnumbered (row # batch))"
    and j: "j < length existing"
    and sr: "(merged ! j) ''supervisorRemarks'' = (existing ! j) ''supervisorRemarks''"
    and present: "\<not> nullish ((existing ! j) ''supervisorRemarks'')"
    and omitted: "truthy (row ''id'') \<and> strict_eq ((existing ! j) ''id'') (row ''id'') \<longrightarrow>
                  nullish (row ''supervisorRemarks'')"
  shows "(fst (bulk_row rt row (merged, maxId)) ! j) ''supervisorRemarks'' =
         (existing ! j) ''supervisorRemarks''"
proof -
  from inv have len: "length existing \<le> length merged"
    and ids: "\<forall>i<length existing. (merged ! i) ''id'' = (existing ! i) ''id''"
    and below: "idsBelow maxId existing"
    by (simp_all add: keepsIds_def)
  show ?thesis
  proof (cases "findIndex (\<lambda>r. sameIdent r (assignIdent rt maxId row)) merged")
    case None
    then show ?thesis
      using len j sr by (simp add: bulk_row_def Let_def nth_append)
  next
    case (Some idx)
    note found = findIndex_Some[OF Some]
    show ?thesis
    proof (cases "idx = j")
      case False
      then show ?thesis
        using sr by (simp add: bulk_row_def Let_def Some)
    next
      case True
      have same: "sameIdent (merged ! j) (assignIdent rt maxId row)"
        using found True by simp
      have idj: "(merged ! j) ''id'' = (existing ! j) ''id''"
        using ids j by simp
      have same': "sameIdent (existing ! j) (assignIdent rt maxId row)"
        using same idj by (cases "assignIdent rt maxId row") simp_all
      have given: "truthy (row ''id'')"
      proof (rule ccontr)
        assume no: "\<not> truthy (row ''id'')"
        have "existing ! j \<in> set existing" using j by simp
        from assigned_fresh[OF below safe no this] same' show False by blast
      qed
      then have "strict_eq ((existing ! j) ''id'') (row ''id'')"
        using same' by (simp add: assignIdent_def)
      with given omitted have "nullish (row ''supervisorRemarks'')" by simp
      then show ?thesis
        using present sr found True j len
        by (simp add: bulk_row_def Let_def Some js_nullish_or_def)
    qed
  qed
qed

lemma bulk_fold_keeps:
  assumes "keepsIds existing st"
    and "counterSafe (snd st) (unnumbered batch)"
    and "j < length existing"
    and "(fst st ! j) ''supervisorRemarks'' = (existing ! j) ''supervisorRemarks''"
    and "\<not> nullish ((existing ! j) ''supervisorRemarks'')"
    and "\<forall>row\<in>set batch. truthy (row ''id'') \<and> strict_eq ((existing ! j) ''id'') (row ''id'') \<longrightarrow>
           nullish (row ''supervisorRemarks'')"
  shows "keepsIds existing (fold (bulk_row rt) batch st) \<and>
         (fst (fold (bulk_row rt) batch st) ! j) ''supervisorRemarks'' =
           (existing ! j) ''supervisorRemarks''"
  using assms
proof (induction batch arbitrary: st)
  case Nil
  then show ?case by simp
next
  case (Cons row batch)
  obtain merged maxId where st: "st = (merged, maxId)" by (cases st)
  have k: "keepsIds existing (bulk_row rt row st)"
    using Cons.prems(1,2) by (rule bulk_row_keepsIds)
  have c: "counterSafe (snd (bulk_row rt row st)) (unnumbered batch)"
    unfolding snd_bulk_row using Cons.prems(2) by (rule counterSafe_next)
  have inv: "keepsIds existing (merged, maxId)"
    and safe: "counterSafe maxId (unnumbered (row # batch))"
    and sr: "(merged ! j) ''supervisorRemarks'' = (existing ! j) ''supervisorRemarks''"
    and om: "truthy (row ''id'') \<and> strict_eq ((existing ! j) ''id'') (row ''id'') \<longrightarrow>
               nullish (row ''supervisorRemarks'')"
    using Cons.prems by (simp_all add: st)
  have s: "(fst (bulk_row rt row st) ! j) ''supervisorRemarks'' =
           (existing ! j) ''supervisorRemarks''"
    unfolding st by (rule bulk_row_keeps_remark[OF inv safe Cons.prems(3) sr Cons.prems(5) om])
  from Cons.IH[OF k c Cons.prems(3) s Cons.prems(5)] Cons.prems(6)
  show ?case by simp
qed

lemma keepsIds_start: "keepsIds existing (existing, maxIdSeeded rt existing)"
  by (simp add: keepsIds_def idsBelow_seeded)

lemma bulk_run_snoc:
  "bulk_run rt existing (pre @ [row]) = bulk_row rt row (bulk_run rt existing pre)"
  by (simp add: bulk_run_def)

text \<open>
  C2 (as amended). Take a stored row, at position \<open>j\<close>, whose \<open>supervisorRemarks\<close> is
  present (not absent and not \<open>null\<close>), and a batch in which every row that carries
  this row's identifier leaves \<open>supervisorRemarks\<close> out (absent or \<open>null\<close>). Let the
  counter be safe for the rows of the batch that come without an identifier: there is
  none, or the greatest stored identifier (the maximum starts from 0) is \<open>NaN\<close>, or
  it is an integer that stays at most \<open>2\<^sup>5\<^sup>3\<close> when their number is added. After
  bulk_set the row at position \<open>j\<close> has the same identifier and the same
  \<open>supervisorRemarks\<close>. And a row whose identifier matches no row of the collection
  merged so far is appended, with \<open>supervisorRemarks\<close> the empty string unless it
  brings a truthy one.
\<close>

theorem bulk_set_keeps_remarks:
  "(j < length existing \<and> \<not> nullish ((existing ! j) ''supervisorRemarks'') \<and>
    counterSafe (maxIdSeeded rt existing) (unnumbered batch) \<and>
    (\<forall>row\<in>set batch. truthy (row ''id'') \<and> strict_eq ((existing ! j) ''id'') (row ''id'') \<longrightarrow>
        nullish (row ''supervisorRemarks'')) \<longrightarrow>
      j < length (bulk_set rt existing batch) \<and>
      (bulk_set rt existing batch ! j) ''id'' = (existing ! j) ''id'' \<and>
      (bulk_set rt existing batch ! j) ''supervisorRemarks'' = (existing ! j) ''supervisorRemarks'') \<and>
   (case bulk_run rt existing pre of
      (merged, maxId) \<Rightarrow>
        (\<forall>r\<in>set merged. \<not> sameIdent r (assignIdent rt maxId row)) \<longrightarrow>
          bulk_set rt existing (pre @ [row]) =
            merged @ [(withIdent row (assignIdent rt maxId row))
                        (''supervisorRemarks'' := js_or (row ''supervisorRemarks'') (JStr ''''))])"
proof (intro conjI impI)
  assume a: "j < length existing \<and> \<not> nullish ((existing ! j) ''supervisorRemarks'') \<and>
    counterSafe (maxIdSeeded rt existing) (unnumbered batch) \<and>
    (\<forall>row\<in>set batch. truthy (row ''id'') \<and> strict_eq ((existing ! j) ''id'') (row ''id'') \<longrightarrow>
        nullish (row ''supervisorRemarks''))"
  have "keepsIds existing (fold (bulk_row rt) batch (existing, maxIdSeeded rt existing)) \<and>
        (fst (fold (bulk_row rt) batch (existing, maxIdSeeded rt existing)) ! j) ''supervisorRemarks'' =
           (existing ! j) ''supervisorRemarks''"
    using a by (intro bulk_fold_keeps keepsIds_start) simp_all
  then have k: "keepsIds existing (bulk_run rt existing batch)"
    and s: "(bulk_set rt existing batch ! j) ''supervisorRemarks'' = (existing ! j) ''supervisorRemarks''"
    by (simp_all add: bulk_run_def bulk_set_def)
  from k a show "j < length (bulk_set rt existing batch)"
    by (auto simp: keepsIds_def bulk_set_def split: prod.splits)
  from k a show "(bulk_set rt existing batch ! j) ''id'' = (existing ! j) ''id''"
    by (auto simp: keepsIds_def bulk_set_def split: prod.splits)
  from s show "(bulk_set rt existing batch ! j) ''supervisorRemarks'' = (existing ! j) ''supervisorRemarks''" .
next
  show "case bulk_run rt existing pre of
      (merged, maxId) \<Rightarrow>
        (\<forall>r\<in>set merged. \<not> sameIdent r (assignIdent rt maxId row)) \<longrightarrow>
          bulk_set rt existing (pre @ [row]) =
            merged @ [(withIdent row (assignIdent rt maxId row))
                        (''supervisorRemarks'' := js_or (row ''supervisorRemarks'') (JStr ''''))]"
  proof (cases "bulk_run rt existing pre")
    case (Pair merged maxId)
    have "bulk_set rt existing (pre @ [row]) =
            merged @ [(withIdent row (assignIdent rt maxId row))
                        (''supervisorRemarks'' := js_or (row ''supervisorRemarks'') (JStr ''''))]"
      if "\<forall>r\<in>set merged. \<not> sameIdent r (assignIdent rt maxId row)"
    proof -
      from that have "findIndex (\<lambda>r. sameIdent r (assignIdent rt maxId row)) merged = None"
        by (simp add: findIndex_None)
      then show ?thesis
        by (simp add: bulk_set_def bulk_run_snoc Pair bulk_row_def Let_def)
    qed
    then show ?thesis by (simp add: Pair)
  qed
qed

theorem bulk_set_keeps_remarks_witness:
  "\<not> nullish (JStr ''keep'') \<and>
   counterSafe (maxIdSeeded exampleRuntime
      [emptyObj(''id'' := JNum 1, ''supervisorRemarks'' := JStr ''keep'')])
     (unnumbered [emptyObj(''id'' := JNum 1, ''farm'' := JStr ''X''), emptyObj(''farm'' := JStr ''Y'')]) \<and>
   (bulk_set exampleRuntime [emptyObj(''id'' := JNum 1, ''supervisorRemarks'' := JStr ''keep'')]
      [emptyObj(''id'' := JNum 1, ''farm'' := JStr ''X''), emptyObj(''farm'' := JStr ''Y'')] ! 0)
      ''supervisorRemarks'' = JStr ''keep'' \<and>
   bulk_set exampleRuntime [emptyObj(''id'' := JNum 1, ''supervisorRemarks'' := JStr ''keep'')]
      ([emptyObj(''farm'' := JStr ''Y'')]) =
     [emptyObj(''id'' := JNum 1, ''supervisorRemarks'' := JStr ''keep'')] @
     [emptyObj(''farm'' := JStr ''Y'', ''id'' := JNum 2, ''supervisorRemarks'' := JStr '''')]"
proof -
  let ?ex = "[emptyObj(''id'' := JNum 1, ''supervisorRemarks'' := JStr ''keep'')]"
  let ?batch = "[emptyObj(''id'' := JNum 1, ''farm'' := JStr ''X''), emptyObj(''farm'' := JStr ''Y'')]"
  let ?new = "emptyObj(''farm'' := JStr ''Y'')"
  note inst = bulk_set_keeps_remarks[where j = 0 and existing = ?ex and batch = ?batch
      and rt = exampleRuntime and pre = "[]" and row = ?new]
  have n: "\<not> nullish (JStr ''keep'')" by (simp add: nullish_def)
  have seeded: "maxIdSeeded exampleRuntime ?ex = Fin 1"
    by (simp add: maxIdSeeded_def idNum_def js_or_def)
  have un: "unnumbered ?batch = 1"
    by (simp add: unnumbered_def emptyObj_def)
  have safe: "counterSafe (maxIdSeeded exampleRuntime ?ex) (unnumbered ?batch)"
    unfolding seeded un by (simp add: counterSafe_def)
  have hyp: "0 < length ?ex \<and> \<not> nullish ((?ex ! 0) ''supervisorRemarks'') \<and>
    counterSafe (maxIdSeeded exampleRuntime ?ex) (unnumbered ?batch) \<and>
    (\<forall>row\<in>set ?batch. truthy (row ''id'') \<and> strict_eq ((?ex ! 0) ''id'') (row ''id'') \<longrightarrow>
        nullish (row ''supervisorRemarks''))"
    using safe by (simp add: nullish_def emptyObj_def)
  have keep: "(bulk_set exampleRuntime ?ex ?batch ! 0) ''supervisorRemarks'' = JStr ''keep''"
    using inst hyp by simp
  have start: "bulk_run exampleRuntime ?ex [] = (?ex, Fin 1)"
    by (simp add: bulk_run_def maxIdSeeded_def idNum_def js_or_def)
  have fresh: "\<forall>r\<in>set ?ex. \<not> sameIdent r (assignIdent exampleRuntime (Fin 1) ?new)"
    by (simp add: assignIdent_def emptyObj_def safeInt_def)
  have "bulk_set exampleRuntime ?ex ([] @ [?new]) =
      ?ex @ [(withIdent ?new (assignIdent exampleRuntime (Fin 1) ?new))
                (''supervisorRemarks'' := js_or (?new ''supervisorRemarks'') (JStr ''''))]"
    using inst fresh unfolding start by simp
  then have app: "bulk_set exampleRuntime ?ex ([] @ [?new]) =
      ?ex @ [emptyObj(''farm'' := JStr ''Y'', ''id'' := JNum 2, ''supervisorRemarks'' := JStr '''')]"
    by (simp add: assignIdent_def js_or_def emptyObj_def safeInt_def)
  from n safe keep app show ?thesis by simp
qed

text \<open>
  C2 as the specification states it does not hold for every store. Identifiers are
  doubles: with a stored identifier \<open>2\<^sup>5\<^sup>3\<close> the counter starts at \<open>2\<^sup>5\<^sup>3\<close>
  and \<open>++maxId\<close> leaves it there. The batch below re-submits the stored row without
  \<open>supervisorRemarks\<close> and brings one new row without identifier: the new row is given
  the identifier \<open>2\<^sup>5\<^sup>3\<close>, is merged into the stored row instead of being
  appended, and its remark replaces the stored one.
\<close>

theorem bulk_set_counterexample:
  "(emptyObj(''id'' := JNum 9007199254740992)) ''supervisorRemarks'' = Undefined \<and>
   length
     (bulk_set exampleRuntime
        [emptyObj(''id'' := JNum 9007199254740992, ''supervisorRemarks'' := JStr ''keep'')]
        [emptyObj(''id'' := JNum 9007199254740992),
         emptyObj(''farm'' := JStr ''B'', ''supervisorRemarks'' := JStr ''new'')]) = 1 \<and>
   (bulk_set exampleRuntime
        [emptyObj(''id'' := JNum 9007199254740992, ''supervisorRemarks'' := JStr ''keep'')]
        [emptyObj(''id'' := JNum 9007199254740992),
         emptyObj(''farm'' := JStr ''B'', ''supervisorRemarks'' := JStr ''new'')] ! 0)
      ''supervisorRemarks'' = JStr ''new'' \<and>
   (bulk_set exampleRuntime
        [emptyObj(''id'' := JNum 9007199254740992, ''supervisorRemarks'' := JStr ''keep'')]
        [emptyObj(''id'' := JNum 9007199254740992),
         emptyObj(''farm'' := JStr ''B'', ''supervisorRemarks'' := JStr ''new'')] ! 0)
      ''id'' = JNum 9007199254740992"
  by (simp add: bulk_set_def bulk_run_def bulk_row_def maxIdSeeded_def idNum_def js_or_def
      assignIdent_def nextCounter_def safeInt_def exampleRuntime_def Let_def spread_def
      js_nullish_or_def nullish_def emptyObj_def)

subsection \<open>Spreadsheet import\<close>

lemma find_findIndex: "findIndex p xs = Some j \<Longrightarrow> find p xs = Some (xs ! j)"
  by (induction xs arbitrary: j) (auto split: if_splits)

lemma find_None_findIndex: "findIndex p xs = None \<Longrightarrow> find p xs = None"
  by (induction xs) (auto split: if_splits)

lemma findIndex_prefix:
  "findIndex p xs = Some j \<Longrightarrow> length xs \<le> length ys \<Longrightarrow>
   (\<forall>i<length xs. q (ys ! i) = p (xs ! i)) \<Longrightarrow> findIndex q ys = Some j"
proof (induction xs arbitrary: ys j)
  case Nil
  then show ?case by simp
next
  case (Cons x xs)
  then obtain y ys' where ys: "ys = y # ys'" by (cases ys) auto
  have hd: "q y = p x" using Cons.prems(3) ys by auto
  show ?case
  proof (cases "p x")
    case True
    with Cons.prems(1) hd ys show ?thesis by simp
  next
    case False
    with Cons.prems(1) obtain k where k: "findIndex p xs = Some k" "j = Suc k" by auto
    have "findIndex q ys' = Some k"
    proof (rule Cons.IH[OF k(1)])
      show "length xs \<le> length ys'" using Cons.prems(2) ys by simp
      show "\<forall>i<length xs. q (ys' ! i) = p (xs ! i)"
        using Cons.prems(3) ys by auto
    qed
    with False hd ys k(2) show ?thesis by simp
  qed
qed

lemma findIndex_below_prefix:
  "findIndex q ys = Some j \<Longrightarrow> j < length xs \<Longrightarrow> length xs \<le> length ys \<Longrightarrow>
   (\<forall>i<length xs. q (ys ! i) = p (xs ! i)) \<Longrightarrow> findIndex p xs = Some j"
proof (induction xs arbitrary: ys j)
  case Nil
  then show ?case by simp
next
  case (Cons x xs)
  then obtain y ys' where ys: "ys = y # ys'" by (cases ys) auto
  have hd: "q y = p x" using Cons.prems(4) ys by auto
  show ?case
  proof (cases "p x")
    case True
    with Cons.prems(1) hd ys show ?thesis by simp
  next
    case False
    with Cons.prems(1) hd ys obtain k where k: "findIndex q ys' = Some k" "j = Suc k" by auto
    have "findIndex p xs = Some k"
    proof (rule Cons.IH[OF k(1)])
      show "k < length xs" using Cons.prems(2) k(2) by simp
      show "length xs \<le> length ys'" using Cons.prems(3) ys by simp
      show "\<forall>i<length xs. q (ys' ! i) = p (xs ! i)"
        using Cons.prems(4) ys by auto
    qed
    with False k(2) show ?thesis by simp
  qed
qed

lemma importRow_carries: "snd (importRow rt existing maxId row) ''id'' = identVal (fst (importRow rt existing maxId row))"
  by (simp add: importRow_def Let_def)

lemma importRows_carry:
  "list_all (\<lambda>ir. snd ir ''id'' = identVal (fst ir)) (importRows rt existing maxId raws)"
  by (induction raws arbitrary: maxId) (simp_all add: importRow_carries)

lemma importRow_good:
  assumes "idsBelow maxId existing" "counterSafe maxId (unnumbered (row # rest))"
  shows "goodImport existing (importRow rt existing maxId row)"
proof (cases "truthy (row ''id'')")
  case True
  then show ?thesis
    by (auto simp: goodImport_def importRow_def assignIdent_def Let_def dest: find_findIndex)
next
  case False
  have "findIndex (\<lambda>e. sameIdent e (assignIdent rt maxId row)) existing = None"
    using assigned_fresh[OF assms False] by (simp add: findIndex_None)
  with False show ?thesis
    by (simp add: goodImport_def importRow_def Let_def)
qed

lemma importRows_good:
  "idsBelow maxId existing \<Longrightarrow> counterSafe maxId (unnumbered raws) \<Longrightarrow>
   list_all (goodImport existing) (importRows rt existing maxId raws)"
proof (induction raws arbitrary: maxId)
  case Nil
  then show ?case by simp
next
  case (Cons row raws)
  have b: "idsBelow (nextCounter rt maxId row) existing"
    using Cons.prems by (rule idsBelow_next)
  have c: "counterSafe (nextCounter rt maxId row) (unnumbered raws)"
    using Cons.prems(2) by (rule counterSafe_next)
  have "goodImport existing (importRow rt existing maxId row)"
    using Cons.prems by (rule importRow_good)
  with Cons.IH[OF b c] show ?case by simp
qed

lemma mergeRow_keepsPlaces:
  assumes k: "keepsPlaces existing merged" and g: "snd ir ''id'' = identVal (fst ir)"
  shows "keepsPlaces existing (mergeRow ir merged)"
proof -
  obtain ident r where ir: "ir = (ident, r)" by (cases ir)
  from k have len: "length existing \<le> length merged"
    and same: "\<forall>i<length existing. (merged ! i) ''id'' = (existing ! i) ''id''"
    by (simp_all add: keepsPlaces_def)
  show ?thesis
  proof (cases "findIndex (\<lambda>e. sameIdent e ident) merged")
    case None
    then show ?thesis using len same
      by (simp add: ir mergeRow_def keepsPlaces_def nth_append)
  next
    case (Some idx)
    note found = findIndex_Some[OF Some]
    have "r ''id'' = (merged ! idx) ''id''"
      using g found sameIdent_identVal[of "merged ! idx" ident] by (simp add: ir)
    then show ?thesis using len same found
      by (simp add: ir mergeRow_def Some keepsPlaces_def nth_list_update)
  qed
qed

lemma fold_mergeRow_keepsPlaces:
  "keepsPlaces existing merged \<Longrightarrow> list_all (\<lambda>ir. snd ir ''id'' = identVal (fst ir)) irs \<Longrightarrow>
   keepsPlaces existing (fold mergeRow irs merged)"
proof (induction irs arbitrary: merged)
  case Nil
  then show ?case by simp
next
  case (Cons ir irs)
  then show ?case by (simp add: mergeRow_keepsPlaces)
qed

lemma agro_import_keepsPlaces: "keepsPlaces existing (agro_import rt existing raws)"
  unfolding agro_import_def
  by (intro fold_mergeRow_keepsPlaces importRows_carry) (simp add: keepsPlaces_def)

lemma mergeRow_keeps:
  assumes k: "keepsStored existing merged" and g: "goodImport existing ir"
  shows "keepsStored existing (mergeRow ir merged)"
proof -
  obtain ident r where ir: "ir = (ident, r)" by (cases ir)
  from k have len: "length existing \<le> length merged"
    and same: "\<forall>i<length existing. (merged ! i) ''id'' = (existing ! i) ''id'' \<and>
         (merged ! i) ''supervisorRemarks'' = (existing ! i) ''supervisorRemarks''"
    by (simp_all add: keepsStored_def)
  show ?thesis
  proof (cases "findIndex (\<lambda>e. sameIdent e ident) merged")
    case None
    then show ?thesis using len same
      by (simp add: ir mergeRow_def keepsStored_def nth_append)
  next
    case (Some idx)
    note found = findIndex_Some[OF Some]
    show ?thesis
    proof (cases "idx < length existing")
      case False
      then show ?thesis using len same found
        by (simp add: ir mergeRow_def Some keepsStored_def nth_list_update)
    next
      case True
      have "findIndex (\<lambda>e. sameIdent e ident) existing = Some idx"
      proof (rule findIndex_below_prefix[OF Some True len])
        show "\<forall>i<length existing. sameIdent (merged ! i) ident = sameIdent (existing ! i) ident"
          using same by (cases ident) simp_all
      qed
      with g have sr: "r ''supervisorRemarks'' = (existing ! idx) ''supervisorRemarks''"
        by (simp add: goodImport_def ir)
      have "r ''id'' = (merged ! idx) ''id''"
        using g found sameIdent_identVal[of "merged ! idx" ident] by (simp add: goodImport_def ir)
      then have "r ''id'' = (existing ! idx) ''id''" using same True by simp
      with sr show ?thesis using len same found
        by (simp add: ir mergeRow_def Some keepsStored_def nth_list_update)
    qed
  qed
qed

lemma fold_mergeRow_keeps:
  "keepsStored existing merged \<Longrightarrow> list_all (goodImport existing) irs \<Longrightarrow>
   keepsStored existing (fold mergeRow irs merged)"
proof (induction irs arbitrary: merged)
  case Nil
  then show ?case by simp
next
  case (Cons ir irs)
  then show ?case by (simp add: mergeRow_keeps)
qed

lemma agro_import_keeps:
  "counterSafe (maxIdSeeded rt existing) (unnumbered raws) \<Longrightarrow>
   keepsStored existing (agro_import rt existing raws)"
  unfolding agro_import_def
  by (intro fold_mergeRow_keeps importRows_good idsBelow_seeded) (simp_all add: keepsStored_def)

lemma importRows_snoc:
  "importRows rt existing maxId (pre @ [raw]) =
     importRows rt existing maxId pre @ [importRow rt existing (counterAfter rt maxId pre) raw]"
  by (induction pre arbitrary: maxId) (simp_all add: counterAfter_def)

lemma agro_import_snoc:
  "agro_import rt existing (pre @ [raw]) =
     mergeRow (importRow rt existing (counterAfter rt (maxIdSeeded rt existing) pre) raw)
       (agro_import rt existing pre)"
  by (simp add: agro_import_def importRows_snoc)

text \<open>
  C3 (as amended). Let the rows \<open>pre\<close> be imported already. If the next row has a
  truthy identifier and \<open>j\<close> is the first stored row with that identifier, then
  position \<open>j\<close> now holds the normalized row and nothing of what was there, except that
  \<open>supervisorRemarks\<close> is the value stored in the file. If no row of the collection
  merged so far has the row's identifier, the normalized row is appended. And when the
  counter is safe for the rows of the sheet that come without an identifier (there is
  none, or the greatest stored identifier, the maximum starting from 0, is \<open>NaN\<close> or
  an integer that stays at most \<open>2\<^sup>5\<^sup>3\<close> when their number is added), every row
  that was stored keeps its position, its identifier and its \<open>supervisorRemarks\<close>.
\<close>

theorem import_replaces_and_preserves:
  "(truthy (raw ''id'') \<and> findIndex (\<lambda>e. strict_eq (e ''id'') (raw ''id'')) existing = Some j \<longrightarrow>
      j < length (agro_import rt existing pre) \<and>
      agro_import rt existing (pre @ [raw]) =
        (agro_import rt existing pre)
          [j := (canonical raw)
                  (''id'' := raw ''id'',
                   ''supervisorRemarks'' := (existing ! j) ''supervisorRemarks'')]) \<and>
   ((\<forall>e\<in>set (agro_import rt existing pre).
        \<not> sameIdent e (assignIdent rt (counterAfter rt (maxIdSeeded rt existing) pre) raw)) \<longrightarrow>
      agro_import rt existing (pre @ [raw]) =
        agro_import rt existing pre @
          [(canonical raw)
             (''id'' := identVal (assignIdent rt (counterAfter rt (maxIdSeeded rt existing) pre) raw),
              ''supervisorRemarks'' := js_or (raw ''supervisorRemarks'') (JStr ''''))]) \<and>
   (counterSafe (maxIdSeeded rt existing) (unnumbered raws) \<longrightarrow>
      (\<forall>i<length existing.
         i < length (agro_import rt existing raws) \<and>
         (agro_import rt existing raws ! i) ''id'' = (existing ! i) ''id'' \<and>
         (agro_import rt existing raws ! i) ''supervisorRemarks'' =
           (existing ! i) ''supervisorRemarks''))"
proof (intro conjI impI)
  let ?M = "agro_import rt existing pre"
  let ?m = "counterAfter rt (maxIdSeeded rt existing) pre"
  have keeps: "keepsPlaces existing ?M" by (rule agro_import_keepsPlaces)
  then have len: "length existing \<le> length ?M"
    and ids: "\<forall>i<length existing. (?M ! i) ''id'' = (existing ! i) ''id''"
    by (simp_all add: keepsPlaces_def)
  have samep: "\<forall>i<length existing. sameIdent (?M ! i) ident = sameIdent (existing ! i) ident" for ident
    using ids by (cases ident) simp_all
  {
    assume a: "truthy (raw ''id'') \<and> findIndex (\<lambda>e. strict_eq (e ''id'') (raw ''id'')) existing = Some j"
    then have fi: "findIndex (\<lambda>e. sameIdent e (Given (raw ''id''))) existing = Some j" by simp
    have j: "j < length existing" using findIndex_Some[OF fi] by simp
    with len show "j < length ?M" by simp
    have row: "importRow rt existing ?m raw =
        (Given (raw ''id''),
         (canonical raw)(''id'' := raw ''id'',
            ''supervisorRemarks'' := (existing ! j) ''supervisorRemarks''))"
      using a find_findIndex[of "\<lambda>e. strict_eq (e ''id'') (raw ''id'')" existing j]
      by (simp add: importRow_def assignIdent_def Let_def)
    have "findIndex (\<lambda>e. sameIdent e (Given (raw ''id''))) ?M = Some j"
      by (rule findIndex_prefix[where p = "\<lambda>e. sameIdent e (Given (raw ''id''))", OF fi len])
        (simp add: ids)
    then show "agro_import rt existing (pre @ [raw]) =
        ?M[j := (canonical raw)(''id'' := raw ''id'',
                   ''supervisorRemarks'' := (existing ! j) ''supervisorRemarks'')]"
      by (simp add: agro_import_snoc row mergeRow_def)
  }
  {
    assume none: "\<forall>e\<in>set ?M. \<not> sameIdent e (assignIdent rt ?m raw)"
    then have fm: "findIndex (\<lambda>e. sameIdent e (assignIdent rt ?m raw)) ?M = None"
      by (simp add: findIndex_None)
    have fe: "findIndex (\<lambda>e. sameIdent e (assignIdent rt ?m raw)) existing = None"
    proof (cases "findIndex (\<lambda>e. sameIdent e (assignIdent rt ?m raw)) existing")
      case (Some i)
      have "findIndex (\<lambda>e. sameIdent e (assignIdent rt ?m raw)) ?M = Some i"
      proof (rule findIndex_prefix[where p = "\<lambda>e. sameIdent e (assignIdent rt ?m raw)", OF Some len])
        show "\<forall>i<length existing. sameIdent (?M ! i) (assignIdent rt ?m raw) =
                sameIdent (existing ! i) (assignIdent rt ?m raw)"
          by (rule samep)
      qed
      with fm show ?thesis by simp
    qed simp
    have "truthy (raw ''id'') \<Longrightarrow> find (\<lambda>r. strict_eq (r ''id'') (raw ''id'')) existing = None"
      using fe by (intro find_None_findIndex) (simp add: assignIdent_def)
    then have row: "importRow rt existing ?m raw =
        (assignIdent rt ?m raw,
         (canonical raw)(''id'' := identVal (assignIdent rt ?m raw),
            ''supervisorRemarks'' := js_or (raw ''supervisorRemarks'') (JStr '''')))"
      by (simp add: importRow_def Let_def)
    show "agro_import rt existing (pre @ [raw]) =
        ?M @ [(canonical raw)(''id'' := identVal (assignIdent rt ?m raw),
              ''supervisorRemarks'' := js_or (raw ''supervisorRemarks'') (JStr ''''))]"
      using fm by (simp add: agro_import_snoc row mergeRow_def)
  }
  {
    assume "counterSafe (maxIdSeeded rt existing) (unnumbered raws)"
    from agro_import_keeps[OF this]
    show "\<forall>i<length existing.
        i < length (agro_import rt existing raws) \<and>
        (agro_import rt existing raws ! i) ''id'' = (existing ! i) ''id'' \<and>
        (agro_import rt existing raws ! i) ''supervisorRemarks'' =
          (existing ! i) ''supervisorRemarks''"
      by (simp add: keepsStored_def)
  }
qed

theorem import_replaces_and_preserves_witness:
  "(agro_import exampleRuntime
      [emptyObj(''id'' := JNum 1, ''farm'' := JStr ''Old'', ''notes'' := JStr ''n'',
                ''supervisorRemarks'' := JStr ''keep'')]
      ([emptyObj(''id'' := JNum 1, ''Farm'' := JStr ''New'',
                      ''supervisorRemarks'' := JStr ''sheet'')]) ! 0) ''farm'' = JStr ''New'' \<and>
   (agro_import exampleRuntime
      [emptyObj(''id'' := JNum 1, ''farm'' := JStr ''Old'', ''notes'' := JStr ''n'',
                ''supervisorRemarks'' := JStr ''keep'')]
      ([emptyObj(''id'' := JNum 1, ''Farm'' := JStr ''New'',
                      ''supervisorRemarks'' := JStr ''sheet'')]) ! 0) ''notes'' = Undefined \<and>
   (agro_import exampleRuntime
      [emptyObj(''id'' := JNum 1, ''farm'' := JStr ''Old'', ''notes'' := JStr ''n'',
                ''supervisorRemarks'' := JStr ''keep'')]
      ([emptyObj(''id'' := JNum 1, ''Farm'' := JStr ''New'',
                      ''supervisorRemarks'' := JStr ''sheet'')]) ! 0) ''supervisorRemarks''
     = JStr ''keep'' \<and>
   (agro_import exampleRuntime
      [emptyObj(''id'' := JNum 1, ''farm'' := JStr ''Old'', ''notes'' := JStr ''n'',
                ''supervisorRemarks'' := JStr ''keep'')]
      ([emptyObj(''farm'' := JStr ''Two'')]) ! 1) ''id'' = JNum 2 \<and>
   (agro_import exampleRuntime
      [emptyObj(''id'' := JNum 1, ''farm'' := JStr ''Old'', ''notes'' := JStr ''n'',
                ''supervisorRemarks'' := JStr ''keep'')]
      ([emptyObj(''farm'' := JStr ''Two'')]) ! 1) ''supervisorRemarks'' = JStr '''' \<and>
   counterSafe
     (maxIdSeeded exampleRuntime
        [emptyObj(''id'' := JNum 1, ''farm'' := JStr ''Old'', ''notes'' := JStr ''n'',
                  ''supervisorRemarks'' := JStr ''keep'')])
     (unnumbered [emptyObj(''farm'' := JStr ''Two'')]) \<and>
   (agro_import exampleRuntime
      [emptyObj(''id'' := JNum 1, ''farm'' := JStr ''Old'', ''notes'' := JStr ''n'',
                ''supervisorRemarks'' := JStr ''keep'')]
      ([emptyObj(''farm'' := JStr ''Two'')]) ! 0) ''supervisorRemarks'' = JStr ''keep''"
proof -
  let ?ex = "[emptyObj(''id'' := JNum 1, ''farm'' := JStr ''Old'', ''notes'' := JStr ''n'',
                ''supervisorRemarks'' := JStr ''keep'')]"
  let ?hit = "emptyObj(''id'' := JNum 1, ''Farm'' := JStr ''New'',
                      ''supervisorRemarks'' := JStr ''sheet'')"
  let ?new = "emptyObj(''farm'' := JStr ''Two'')"
  have start: "agro_import exampleRuntime ?ex [] = ?ex"
    by (simp add: agro_import_def)
  have seeded: "maxIdSeeded exampleRuntime ?ex = Fin 1"
    by (simp add: maxIdSeeded_def idNum_def js_or_def)
  have cnt: "counterAfter exampleRuntime (maxIdSeeded exampleRuntime ?ex) [] = Fin 1"
    by (simp add: counterAfter_def seeded)
  have un: "unnumbered [?new] = 1"
    by (simp add: unnumbered_def emptyObj_def)
  have safe: "counterSafe (maxIdSeeded exampleRuntime ?ex) (unnumbered [?new])"
    unfolding seeded un by (simp add: counterSafe_def)
  have h1: "truthy (?hit ''id'') \<and>
      findIndex (\<lambda>e. strict_eq (e ''id'') (?hit ''id'')) ?ex = Some 0"
    by simp
  have r1: "agro_import exampleRuntime ?ex ([] @ [?hit]) =
      ?ex[0 := (canonical ?hit)(''id'' := ?hit ''id'',
                   ''supervisorRemarks'' := (?ex ! 0) ''supervisorRemarks'')]"
    using import_replaces_and_preserves[where raw = ?hit and existing = ?ex and j = 0
        and rt = exampleRuntime and pre = "[]" and raws = "[]"] h1
    unfolding start by blast
  have h2: "\<forall>e\<in>set ?ex. \<not> sameIdent e (assignIdent exampleRuntime (Fin 1) ?new)"
    by (simp add: assignIdent_def emptyObj_def safeInt_def)
  have r2: "agro_import exampleRuntime ?ex ([] @ [?new]) =
      ?ex @ [(canonical ?new)(''id'' := identVal (assignIdent exampleRuntime (Fin 1) ?new),
              ''supervisorRemarks'' := js_or (?new ''supervisorRemarks'') (JStr ''''))]"
    using import_replaces_and_preserves[where raw = ?new and existing = ?ex and j = 0
        and rt = exampleRuntime and pre = "[]" and raws = "[]"] h2
    unfolding start cnt by blast
  have r3: "\<forall>i<length ?ex.
         i < length (agro_import exampleRuntime ?ex [?new]) \<and>
         (agro_import exampleRuntime ?ex [?new] ! i) ''id'' = (?ex ! i) ''id'' \<and>
         (agro_import exampleRuntime ?ex [?new] ! i) ''supervisorRemarks'' =
           (?ex ! i) ''supervisorRemarks''"
    using import_replaces_and_preserves[where raw = ?new and existing = ?ex and j = 0
        and rt = exampleRuntime and pre = "[]" and raws = "[?new]"] safe
    by blast
  have a: "(agro_import exampleRuntime ?ex ([] @ [?hit]) ! 0) ''farm'' = JStr ''New''"
    unfolding r1 by (simp add: canonical_def importFields_def firstTruthy_def js_or_def emptyObj_def)
  have b: "(agro_import exampleRuntime ?ex ([] @ [?hit]) ! 0) ''notes'' = Undefined"
    unfolding r1 by (simp add: canonical_def importFields_def)
  have c: "(agro_import exampleRuntime ?ex ([] @ [?hit]) ! 0) ''supervisorRemarks'' = JStr ''keep''"
    unfolding r1 by simp
  have d: "(agro_import exampleRuntime ?ex ([] @ [?new]) ! 1) ''id'' = JNum 2"
    unfolding r2 by (simp add: assignIdent_def emptyObj_def safeInt_def)
  have e: "(agro_import exampleRuntime ?ex ([] @ [?new]) ! 1) ''supervisorRemarks'' = JStr ''''"
    unfolding r2 by (simp add: js_or_def emptyObj_def)
  have f: "(agro_import exampleRuntime ?ex [?new] ! 0) ''supervisorRemarks'' = JStr ''keep''"
    using r3 by simp
  from a b c d e safe f show ?thesis by simp
qed

text \<open>
  C3 as the specification states it does not hold for every store. Identifiers are
  doubles: with a stored identifier \<open>2\<^sup>5\<^sup>3\<close> the counter starts at \<open>2\<^sup>5\<^sup>3\<close>
  and \<open>++maxId\<close> leaves it there. A sheet row without identifier is then given the
  identifier \<open>2\<^sup>5\<^sup>3\<close>; the lookup of the stored remark is made only for a row that
  brings an identifier, so the row keeps the remark of the sheet, and it replaces the
  stored row instead of being appended.
\<close>

theorem import_counterexample:
  "length
     (agro_import exampleRuntime
        [emptyObj(''id'' := JNum 9007199254740992, ''supervisorRemarks'' := JStr ''keep'')]
        [emptyObj(''farm'' := JStr ''B'', ''supervisorRemarks'' := JStr ''sheet'')]) = 1 \<and>
   (agro_import exampleRuntime
        [emptyObj(''id'' := JNum 9007199254740992, ''supervisorRemarks'' := JStr ''keep'')]
        [emptyObj(''farm'' := JStr ''B'', ''supervisorRemarks'' := JStr ''sheet'')] ! 0)
      ''supervisorRemarks'' = JStr ''sheet'' \<and>
   (agro_import exampleRuntime
        [emptyObj(''id'' := JNum 9007199254740992, ''supervisorRemarks'' := JStr ''keep'')]
        [emptyObj(''farm'' := JStr ''B'', ''supervisorRemarks'' := JStr ''sheet'')] ! 0)
      ''id'' = JNum 9007199254740992"
  by (simp add: agro_import_def importRow_def mergeRow_def maxIdSeeded_def idNum_def js_or_def
      assignIdent_def safeInt_def exampleRuntime_def Let_def emptyObj_def)

end
